theory Spec2Isabelle
  imports
    Main
    "HOL-Library.Char_ord"
    "HOL-Library.List_Lexorder"
    "HOL-Library.Multiset"
begin

section \<open>Strings and the library calls the package relies on\<close>

text \<open>
  A Go string is a sequence of bytes, and Go compares strings byte by byte; so a
  filename is a \<^typ>\<open>string\<close> (a list of 8-bit characters) and \<open>a < b\<close> on two
  filenames is the lexicographic order of the byte values.

  The package \<open>pdf\<close> calls a handful of functions of Go's standard library. They
  are not part of the repository; each is written out here after its documented
  behaviour (on a 64-bit platform, with \<open>/\<close> as the path separator), under the
  name it has in the Go source.
\<close>

definition isDigit :: "char \<Rightarrow> bool" where
  "isDigit c \<longleftrightarrow> CHR ''0'' \<le> c \<and> c \<le> CHR ''9''"

text \<open>
  \<open>strconv.Atoi\<close>: an optional sign, then one or more decimal digits and nothing
  else; the value has to fit a 64-bit \<open>int\<close>. Every other string is an error
  (\<open>None\<close>).
\<close>

fun parseDigits :: "nat \<Rightarrow> string \<Rightarrow> nat option" where
  "parseDigits n [] = Some n"
| "parseDigits n (ch # s) =
     (if isDigit ch then parseDigits (n * 10 + (of_char ch - 48)) s else None)"

definition strconv_Atoi :: "string \<Rightarrow> int option" where
  "strconv_Atoi s0 =
     (case s0 of
        [] \<Rightarrow> None
      | c # cs \<Rightarrow>
          (let s = (if c = CHR ''-'' \<or> c = CHR ''+'' then cs else s0) in
           if s = [] then None
           else (case parseDigits 0 s of
                   None \<Rightarrow> None
                 | Some n \<Rightarrow>
                     (let v = (if c = CHR ''-'' then - int n else int n) in
                      if v < - (2 ^ 63) \<or> 2 ^ 63 - 1 < v then None else Some v))))"

text \<open>\<open>strings.HasSuffix(s, suffix)\<close>.\<close>

definition strings_HasSuffix :: "string \<Rightarrow> string \<Rightarrow> bool" where
  "strings_HasSuffix s suffix \<longleftrightarrow>
     length suffix \<le> length s \<and> drop (length s - length suffix) s = suffix"

text \<open>
  \<open>regexp.MustCompile(`[0-9] `).FindAllString(s, -1)\<close>: the successive
  non-overlapping matches of the pattern, leftmost first. The pattern of the
  source is a character class followed by a literal space, so a match is exactly
  two bytes long: a digit and the space after it.
\<close>

fun re_FindAllString :: "string \<Rightarrow> string list" where
  "re_FindAllString (c # d # s) =
     (if isDigit c \<and> d = CHR '' '' then [c, d] # re_FindAllString s
      else re_FindAllString (d # s))"
| "re_FindAllString s = []"

text \<open>
  \<open>sort.Slice(data, less)\<close>. Go sorts a slice of at most twelve elements by
  insertion (\<open>insertionSortLessFunc\<close>: each element in turn is swapped to the
  left while it is \<open>less\<close> than its left neighbour), and longer ones by a
  pattern-defeating quicksort that ends in the same insertion sort. The model is
  the insertion sort; \<open>insertLess\<close> holds the already sorted prefix reversed, so
  that its head is the left neighbour.
\<close>

fun insertLess :: "('a \<Rightarrow> 'a \<Rightarrow> bool) \<Rightarrow> 'a \<Rightarrow> 'a list \<Rightarrow> 'a list" where
  "insertLess lessFn x [] = [x]"
| "insertLess lessFn x (y # ys) =
     (if lessFn x y then y # insertLess lessFn x ys else x # y # ys)"

definition sort_Slice :: "('a \<Rightarrow> 'a \<Rightarrow> bool) \<Rightarrow> 'a list \<Rightarrow> 'a list" where
  "sort_Slice lessFn data = rev (foldl (\<lambda>pre x. insertLess lessFn x pre) [] data)"

section \<open>Folder listing\<close>

text \<open>
  The errors of the package: one that an outside call returned (with its
  message), the two that the package makes itself with \<open>fmt.Errorf\<close>, and the
  one that the specification names for deleting a file that is not there.
\<close>

datatype error =
    ExternalError string
  | NoPDFFiles
  | NoUserCode
  | NotFoundError string

text \<open>
  An entry of a directory as \<open>os.ReadDir\<close> reports it (\<open>fs.DirEntry\<close>): the
  listing reads its name and whether it is a directory.
\<close>

record DirEntry =
  Name :: string
  IsDir :: bool

text \<open>
  The function literal handed to \<open>sort.Slice\<close> in \<open>ListFilesWithExtension\<close>. In
  the source it takes two indices and reads the two filenames from the slice
  being sorted; here it takes the two filenames.
\<close>

definition sortLess :: "string \<Rightarrow> string \<Rightarrow> bool" where
  "sortLess fi fj =
     (let foundN1 = re_FindAllString fi;
          foundN2 = re_FindAllString fj
      in if length foundN1 = 0 \<or> length foundN2 = 0 then fi < fj
         else (case (strconv_Atoi (foundN1 ! 0), strconv_Atoi (foundN2 ! 0)) of
                 (Some n1, Some n2) \<Rightarrow> n1 < n2
               | _ \<Rightarrow> fi < fj))"

text \<open>
  \<open>ListFilesWithExtension(dir, ext)\<close>. The directory is read through the package
  variable \<open>osReadDir\<close>, which is a parameter here; it returns the entries it
  could read and an optional error. The debugging line printed to standard
  output is left out.
\<close>

definition ListFilesWithExtension ::
    "(string \<Rightarrow> DirEntry list \<times> error option) \<Rightarrow> string \<Rightarrow> string \<Rightarrow> error + string list" where
  "ListFilesWithExtension osReadDir dir ext =
     (case osReadDir dir of
        (files, Some err) \<Rightarrow> Inl err
      | (files, None) \<Rightarrow>
          Inr (sort_Slice sortLess
                 (map Name (filter (\<lambda>file. \<not> IsDir file \<and> strings_HasSuffix (Name file) ext) files))))"

text \<open>
  The filename ordering as the specification words it: the first maximal run of
  decimal digits of a filename (empty when the name has no digit). It is used
  only to state what the specification asks of the comparison; the code never
  computes it.
\<close>

definition firstDigitRun :: "string \<Rightarrow> string" where
  "firstDigitRun s = takeWhile isDigit (dropWhile (\<lambda>c. \<not> isDigit c) s)"

definition mockReadDir :: "DirEntry list \<Rightarrow> string \<Rightarrow> DirEntry list \<times> error option" where
  "mockReadDir entries dir = (entries, None)"

definition mockFile :: "string \<Rightarrow> DirEntry" where
  "mockFile n = \<lparr>Name = n, IsDir = False\<rparr>"

section \<open>Paths, number formatting and Base64\<close>

text \<open>
  \<open>strings.Split(s, sep)\<close> and \<open>strings.Join(elems, sep)\<close> for a separator of one
  byte, the only kind the package uses. Splitting the empty string gives one
  empty piece, so the result is never empty.
\<close>

fun strings_Split :: "string \<Rightarrow> char \<Rightarrow> string list" where
  "strings_Split [] sep = [[]]"
| "strings_Split (c # s) sep =
     (if c = sep then [] # strings_Split s sep
      else (case strings_Split s sep of
              [] \<Rightarrow> [[c]]
            | piece # pieces \<Rightarrow> (c # piece) # pieces))"

fun strings_Join :: "string list \<Rightarrow> char \<Rightarrow> string" where
  "strings_Join [] sep = []"
| "strings_Join [e] sep = e"
| "strings_Join (e # elems) sep = e @ sep # strings_Join elems sep"

text \<open>
  \<open>filepath.Clean\<close>: empty and \<open>.\<close> elements vanish, an inner \<open>..\<close> removes the
  element before it, a \<open>..\<close> at the start of a rooted path vanishes, and the
  empty result is \<open>.\<close>. \<open>cleanElems\<close> keeps the elements written so far in
  reverse, the last one first.
\<close>

fun cleanElems :: "bool \<Rightarrow> string list \<Rightarrow> string list \<Rightarrow> string list" where
  "cleanElems rooted out [] = rev out"
| "cleanElems rooted out (e # es) =
     (if e = [] \<or> e = ''.'' then cleanElems rooted out es
      else if e = ''..'' then
        (case out of
           [] \<Rightarrow> if rooted then cleanElems rooted [] es else cleanElems rooted [''..''] es
         | t # ts \<Rightarrow> if t = ''..'' then cleanElems rooted (''..'' # out) es
                     else cleanElems rooted ts es)
      else cleanElems rooted (e # out) es)"

definition filepath_Clean :: "string \<Rightarrow> string" where
  "filepath_Clean path =
     (case path of
        [] \<Rightarrow> ''.''
      | c # _ \<Rightarrow>
          (let rooted = (c = CHR ''/'');
               body = strings_Join (cleanElems rooted [] (strings_Split path CHR ''/'')) CHR ''/''
           in if rooted then CHR ''/'' # body
              else if body = [] then ''.'' else body))"

text \<open>
  \<open>filepath.Join(elem...)\<close>: the elements from the first non-empty one on,
  joined by the separator and cleaned; the empty string when all are empty.
\<close>

fun filepath_Join :: "string list \<Rightarrow> string" where
  "filepath_Join [] = []"
| "filepath_Join (e # elem) =
     (if e = [] then filepath_Join elem
      else filepath_Clean (strings_Join (e # elem) CHR ''/''))"

text \<open>
  The verb \<open>%d\<close> of \<open>fmt.Sprintf\<close> on a number that is not negative: its decimal
  digits, without leading zeros. The numbers printed by the package are lengths
  and indices of slices held in memory, which stay far below \<open>2 ^ 63\<close>; they are
  natural numbers here.
\<close>

fun formatDecimal :: "nat \<Rightarrow> string" where
  "formatDecimal n =
     (if n < 10 then [''0123456789'' ! n]
      else formatDecimal (n div 10) @ [''0123456789'' ! (n mod 10)])"

declare formatDecimal.simps [simp del]

text \<open>
  \<open>base64.StdEncoding.EncodeToString\<close>: three bytes become four characters of
  the standard alphabet; a rest of one or two bytes is padded with \<open>=\<close>.
\<close>

definition encodeStd :: string where
  "encodeStd = ''ABCDEFGHIJKLMNOPQRSTUVWXYZabcdefghijklmnopqrstuvwxyz0123456789+/''"

fun base64_EncodeToString :: "string \<Rightarrow> string" where
  "base64_EncodeToString (a # b # c # src) =
     (let val = of_char a * 65536 + of_char b * 256 + of_char c :: nat
      in encodeStd ! (val div 262144 mod 64) # encodeStd ! (val div 4096 mod 64)
           # encodeStd ! (val div 64 mod 64) # encodeStd ! (val mod 64)
           # base64_EncodeToString src)"
| "base64_EncodeToString [a, b] =
     (let val = of_char a * 65536 + of_char b * 256 :: nat
      in [encodeStd ! (val div 262144 mod 64), encodeStd ! (val div 4096 mod 64),
          encodeStd ! (val div 64 mod 64), CHR ''=''])"
| "base64_EncodeToString [a] =
     (let val = of_char a * 65536 :: nat
      in [encodeStd ! (val div 262144 mod 64), encodeStd ! (val div 4096 mod 64),
          CHR ''='', CHR ''=''])"
| "base64_EncodeToString [] = []"

text \<open>
  The inverse direction, which the package never calls: it is here to state that
  the encoding can be undone. \<open>decodeChar\<close> is the position of a character in
  the alphabet.
\<close>

definition decodeChar :: "char \<Rightarrow> nat" where
  "decodeChar c =
     (if CHR ''A'' \<le> c \<and> c \<le> CHR ''Z'' then of_char c - 65
      else if CHR ''a'' \<le> c \<and> c \<le> CHR ''z'' then of_char c - 71
      else if CHR ''0'' \<le> c \<and> c \<le> CHR ''9'' then of_char c + 4
      else if c = CHR ''+'' then 62 else 63)"

fun base64_Decode :: "string \<Rightarrow> string" where
  "base64_Decode (w # x # y # z # rest) =
     (let val = decodeChar w * 262144 + decodeChar x * 4096 :: nat
      in if y = CHR ''='' then [char_of (val div 65536)]
         else if z = CHR ''='' then
           (let val = val + decodeChar y * 64
            in [char_of (val div 65536), char_of (val div 256 mod 256)])
         else
           (let val = val + decodeChar y * 64 + decodeChar z
            in char_of (val div 65536) # char_of (val div 256 mod 256) # char_of (val mod 256)
                 # base64_Decode rest))"
| "base64_Decode s = []"

text \<open>
  What \<open>cleanElems\<close> keeps true of the elements written so far (the last one
  first): none is empty or \<open>.\<close> or holds a separator, below a \<open>..\<close> there
  are only \<open>..\<close>, and a rooted path has no \<open>..\<close> at all.
\<close>

definition cleanStack :: "bool \<Rightarrow> string list \<Rightarrow> bool" where
  "cleanStack rooted out \<longleftrightarrow>
     list_all (\<lambda>e. e \<noteq> [] \<and> e \<noteq> ''.'' \<and> CHR ''/'' \<notin> set e) out
     \<and> list_all (\<lambda>e. e = ''..'') (dropWhile (\<lambda>e. e \<noteq> ''..'') out)
     \<and> (rooted \<longrightarrow> ''..'' \<notin> set out)"

section \<open>The access-code store\<close>

text \<open>
  The package variable \<open>validCodes\<close> is a Go map from strings to booleans;
  reading a key that is absent gives \<open>false\<close>. The mutex around each access is
  not modelled: a handler runs here as one step.
\<close>

type_synonym codes = "string \<rightharpoonup> bool"

definition validCodes :: codes where
  "validCodes = [''alex'' \<mapsto> True]"

definition isValid :: "codes \<Rightarrow> string \<Rightarrow> bool" where
  "isValid store accessCode = (case store accessCode of None \<Rightarrow> False | Some v \<Rightarrow> v)"

section \<open>Requests and responses\<close>

text \<open>
  What the handlers read of a \<open>multipart.FileHeader\<close>: the filename, and the
  result of \<open>Open\<close>, which is the content that \<open>io.Copy\<close> then reads.
\<close>

record FileHeader =
  Filename :: string
  Open :: "error + string"

text \<open>
  What the handlers read of an \<open>http.Request\<close>. \<open>ContextUserCode\<close> is the
  value stored in the request context under \<open>userCodeKey\<close>.
\<close>

record Request =
  Method :: string
  ParseForm :: "error option"
  FormValue :: "string \<Rightarrow> string"
  URLQuery :: "string \<Rightarrow> string"
  Cookie :: "string \<Rightarrow> error + string"
  ContextUserCode :: "string option"
  ParseMultipartForm :: "error option"
  MultipartFile :: "string \<Rightarrow> FileHeader list"

text \<open>
  What a handler writes. \<open>HttpError\<close> is a call of \<open>http.Error\<close>; its message is
  left out, the status code is kept. \<open>Redirect\<close> carries the cookie set before
  it.
\<close>

datatype Response =
    HttpError nat
  | Text nat string
  | Redirect nat string "string \<times> string"
  | ServeFile string
  | Json "string list"

section \<open>Code generation, login and the authentication middleware\<close>

definition GenerateCodeHandler :: "Request \<Rightarrow> codes \<Rightarrow> Response \<times> codes" where
  "GenerateCodeHandler r store =
     (if Method r \<noteq> ''POST'' then (HttpError 405, store)
      else if ParseForm r \<noteq> None then (HttpError 400, store)
      else
        (let name = FormValue r ''name'';
             date = FormValue r ''date''
         in if name = [] \<or> date = [] then (HttpError 400, store)
            else
              (let dataToEncode = name @ date;
                   code = base64_EncodeToString dataToEncode
               in (Text 200 (code @ [CHR 0x0A]), store(code \<mapsto> True)))))"

definition LoginHandler :: "Request \<Rightarrow> codes \<Rightarrow> Response" where
  "LoginHandler r store =
     (if Method r \<noteq> ''POST'' then HttpError 405
      else if ParseForm r \<noteq> None then HttpError 400
      else
        (let accessCode = FormValue r ''access_code''
         in if accessCode = [] then HttpError 400
            else if \<not> isValid store accessCode then HttpError 401
            else Redirect 303 ''/view/pdf'' (''auth_code'', accessCode)))"

text \<open>
  \<open>AuthMiddleware(next)\<close>: the result is either the error response of the middleware
  or whatever \<open>next\<close> does with the request that carries the access code in
  its context.
\<close>

definition AuthMiddleware :: "(Request \<Rightarrow> 'a) \<Rightarrow> codes \<Rightarrow> Request \<Rightarrow> Response + 'a" where
  "AuthMiddleware next store r =
     (case Cookie r ''auth_code'' of
        Inl err \<Rightarrow> Inl (HttpError 401)
      | Inr accessCode \<Rightarrow>
          if \<not> isValid store accessCode then Inl (HttpError 401)
          else Inr (next (r\<lparr>ContextUserCode := Some accessCode\<rparr>)))"

section \<open>The handlers of the storage\<close>

text \<open>
  The calls that reach outside the program, over a state of the outside world
  \<open>'w\<close>: the working directory, the directory read (the package variable
  \<open>osReadDir\<close>), \<open>os.MkdirAll\<close>, \<open>os.Create\<close>, \<open>io.Copy\<close> into the file
  created at a path, and \<open>api.MergeCreateFile\<close> of the PDF library (input paths,
  output path, divider-page flag; its configuration argument is \<open>nil\<close>). Every
  one may fail, and every one but the first two may change the world. The
  deferred \<open>Close\<close> calls are not modelled.
\<close>

record 'w System =
  os_Getwd :: "'w \<Rightarrow> string"
  osReadDir :: "'w \<Rightarrow> string \<Rightarrow> DirEntry list \<times> error option"
  os_MkdirAll :: "string \<Rightarrow> 'w \<Rightarrow> error option \<times> 'w"
  os_Create :: "string \<Rightarrow> 'w \<Rightarrow> error option \<times> 'w"
  io_Copy :: "string \<Rightarrow> string \<Rightarrow> 'w \<Rightarrow> error option \<times> 'w"
  api_MergeCreateFile :: "string list \<Rightarrow> string \<Rightarrow> bool \<Rightarrow> 'w \<Rightarrow> error option \<times> 'w"

definition getUserStoragePath :: "'w System \<Rightarrow> Request \<Rightarrow> 'w \<Rightarrow> error + string" where
  "getUserStoragePath sys r w =
     (case ContextUserCode r of
        None \<Rightarrow> Inl NoUserCode
      | Some userCode \<Rightarrow> Inr (filepath_Join [os_Getwd sys w, ''archivos'', userCode]))"

definition ListHandler :: "'w System \<Rightarrow> Request \<Rightarrow> 'w \<Rightarrow> Response" where
  "ListHandler sys r w =
     (case getUserStoragePath sys r w of
        Inl err \<Rightarrow> HttpError 500
      | Inr userStoragePath \<Rightarrow>
          (let folder = URLQuery r ''folder''
           in if folder = [] then HttpError 400
              else
                (let folderPath = filepath_Join [userStoragePath, folder]
                 in case ListFilesWithExtension (osReadDir sys w) folderPath ''.pdf'' of
                      Inl err \<Rightarrow> HttpError 500
                    | Inr files \<Rightarrow> Json files)))"

text \<open>
  The name under which the loop of \<open>UploadHandler\<close> stores the file at index
  \<open>i\<close> (counted from zero) of the batch.
\<close>

definition uploadFilename :: "nat \<Rightarrow> nat \<Rightarrow> string \<Rightarrow> string" where
  "uploadFilename counter i filename =
     (let numStr = strings_Split filename CHR ''-'' ! 0
      in if strconv_Atoi numStr = None
         then formatDecimal (i + 1 + counter) @ ''-'' @ filename
         else filename)"

text \<open>
  The loop over the uploaded files, from index \<open>i\<close> on. It stops at the first
  file that cannot be opened, created or copied; what was written before stays.
\<close>

fun uploadFiles ::
    "'w System \<Rightarrow> string \<Rightarrow> nat \<Rightarrow> nat \<Rightarrow> FileHeader list \<Rightarrow> 'w \<Rightarrow> Response \<times> 'w" where
  "uploadFiles sys folderPath counter i [] w = (Text 200 ''Archivos subidos correctamente'', w)"
| "uploadFiles sys folderPath counter i (fileHeader # files) w =
     (case Open fileHeader of
        Inl err \<Rightarrow> (HttpError 500, w)
      | Inr file \<Rightarrow>
          (let filename = uploadFilename counter i (Filename fileHeader);
               dst = filepath_Join [folderPath, filename]
           in case os_Create sys dst w of
                (Some err, w1) \<Rightarrow> (HttpError 500, w1)
              | (None, w1) \<Rightarrow>
                  (case io_Copy sys dst file w1 of
                     (Some err, w2) \<Rightarrow> (HttpError 500, w2)
                   | (None, w2) \<Rightarrow> uploadFiles sys folderPath counter (i + 1) files w2)))"

definition UploadHandler :: "'w System \<Rightarrow> Request \<Rightarrow> 'w \<Rightarrow> Response \<times> 'w" where
  "UploadHandler sys r w =
     (if Method r \<noteq> ''POST'' then (HttpError 405, w)
      else
        (case getUserStoragePath sys r w of
           Inl err \<Rightarrow> (HttpError 500, w)
         | Inr userStoragePath \<Rightarrow>
             (let folder = FormValue r ''folder''
              in if folder = [] then (HttpError 400, w)
                 else
                   (let folderPath = filepath_Join [userStoragePath, folder]
                    in case os_MkdirAll sys folderPath w of
                         (Some err, w1) \<Rightarrow> (HttpError 500, w1)
                       | (None, w1) \<Rightarrow>
                           (case ListFilesWithExtension (osReadDir sys w1) folderPath ''.pdf'' of
                              Inl err \<Rightarrow> (HttpError 400, w1)
                            | Inr destFiles \<Rightarrow>
                                (let counter = length destFiles
                                 in if ParseMultipartForm r \<noteq> None then (HttpError 400, w1)
                                    else uploadFiles sys folderPath counter 0
                                           (MultipartFile r ''pdfs'') w1))))))"

text \<open>
  \<open>joinPDFs(path, folder)\<close>: the returned error, if any, and the world after the
  call.
\<close>

definition joinPDFs :: "'w System \<Rightarrow> string \<Rightarrow> string \<Rightarrow> 'w \<Rightarrow> error option \<times> 'w" where
  "joinPDFs sys path folder w =
     (let folderPath = filepath_Join [path, folder]
      in case ListFilesWithExtension (osReadDir sys w) folderPath ''.pdf'' of
           Inl err \<Rightarrow> (Some err, w)
         | Inr files \<Rightarrow>
             if length files = 0 then (Some NoPDFFiles, w)
             else
               (let outputFilePath = filepath_Join [folderPath, ''../'', folder @ ''.pdf''];
                    filesToJoin = map (\<lambda>i. filepath_Join [folderPath, files ! i]) [0..<length files]
                in api_MergeCreateFile sys filesToJoin outputFilePath False w))"

definition GenerateHandler :: "'w System \<Rightarrow> Request \<Rightarrow> 'w \<Rightarrow> Response \<times> 'w" where
  "GenerateHandler sys r w =
     (if Method r \<noteq> ''POST'' then (HttpError 405, w)
      else
        (case getUserStoragePath sys r w of
           Inl err \<Rightarrow> (HttpError 500, w)
         | Inr userStoragePath \<Rightarrow>
             (let folder = FormValue r ''folder''
              in if folder = [] then (HttpError 400, w)
                 else
                   (case joinPDFs sys userStoragePath folder w of
                      (Some err, w1) \<Rightarrow> (HttpError 500, w1)
                    | (None, w1) \<Rightarrow> (Text 200 ''PDF generado correctamente'', w1)))))"

definition DownloadHandler :: "'w System \<Rightarrow> Request \<Rightarrow> 'w \<Rightarrow> Response" where
  "DownloadHandler sys r w =
     (case getUserStoragePath sys r w of
        Inl err \<Rightarrow> HttpError 500
      | Inr userStoragePath \<Rightarrow>
          (let folder = URLQuery r ''folder''
           in if folder = [] then HttpError 400
              else
                (let pdfPath = filepath_Join [userStoragePath, folder @ ''.pdf'']
                 in ServeFile pdfPath)))"

section \<open>A store of folders, and a system that records its calls\<close>

text \<open>
  The folders of a storage, as far as the listing can see them: the entries of
  each directory that exists, by the path of the directory. Reading a directory
  that does not exist fails.
\<close>

type_synonym Folders = "string \<rightharpoonup> DirEntry list"

definition readFolder :: "Folders \<Rightarrow> string \<Rightarrow> DirEntry list \<times> error option" where
  "readFolder fs dir =
     (case fs dir of
        None \<Rightarrow> ([], Some (ExternalError ''no such file or directory''))
      | Some entries \<Rightarrow> (entries, None))"

text \<open>
  A stand-in for the outside world in the manner of the mocks of the package's
  tests: it holds folders to list and writes down, in order, every path
  created, every content copied and every call of the merge operation. It is
  used to run the handlers on concrete inputs.
\<close>

record World =
  folders :: Folders
  created :: "string list"
  copied :: "(string \<times> string) list"
  merged :: "(string list \<times> string \<times> bool) list"

definition recordingSystem :: "World System" where
  "recordingSystem =
     \<lparr> os_Getwd = (\<lambda>w. ''/srv''),
       osReadDir = (\<lambda>w. readFolder (folders w)),
       os_MkdirAll = (\<lambda>path w.
          (None, if folders w path = None then w\<lparr>folders := (folders w)(path \<mapsto> [])\<rparr> else w)),
       os_Create = (\<lambda>path w. (None, w\<lparr>created := created w @ [path]\<rparr>)),
       io_Copy = (\<lambda>path file w. (None, w\<lparr>copied := copied w @ [(path, file)]\<rparr>)),
       api_MergeCreateFile = (\<lambda>inFiles outFile dividerPage w.
          (None, w\<lparr>merged := merged w @ [(inFiles, outFile, dividerPage)]\<rparr>)) \<rparr>"

definition emptyWorld :: World where
  "emptyWorld = \<lparr> folders = Map.empty, created = [], copied = [], merged = [] \<rparr>"

definition worldWith :: "string \<Rightarrow> DirEntry list \<Rightarrow> World" where
  "worldWith dir entries = emptyWorld\<lparr>folders := [dir \<mapsto> entries]\<rparr>"

definition mockDir :: "string \<Rightarrow> DirEntry" where
  "mockDir n = \<lparr>Name = n, IsDir = True\<rparr>"

definition failingReadDir :: "string \<Rightarrow> string \<Rightarrow> DirEntry list \<times> error option" where
  "failingReadDir msg dir = ([], Some (ExternalError msg))"

text \<open>Requests to run the handlers on: only the fields a handler reads are set.\<close>

definition emptyRequest :: Request where
  "emptyRequest =
     \<lparr> Method = ''GET'', ParseForm = None, FormValue = (\<lambda>key. []), URLQuery = (\<lambda>key. []),
       Cookie = (\<lambda>name. Inl (ExternalError ''http: named cookie not present'')),
       ContextUserCode = None, ParseMultipartForm = None, MultipartFile = (\<lambda>key. []) \<rparr>"

definition generateCodeRequest :: "string \<Rightarrow> string \<Rightarrow> Request" where
  "generateCodeRequest name date =
     emptyRequest\<lparr> Method := ''POST'',
       FormValue := (\<lambda>key. if key = ''name'' then name else if key = ''date'' then date else []) \<rparr>"

definition loginRequest :: "string \<Rightarrow> Request" where
  "loginRequest accessCode =
     emptyRequest\<lparr> Method := ''POST'',
       FormValue := (\<lambda>key. if key = ''access_code'' then accessCode else []) \<rparr>"

definition cookieRequest :: "string \<Rightarrow> Request" where
  "cookieRequest accessCode =
     emptyRequest\<lparr> Cookie := (\<lambda>name. if name = ''auth_code'' then Inr accessCode
                                     else Inl (ExternalError ''http: named cookie not present'')) \<rparr>"

definition uploadRequest :: "string \<Rightarrow> string \<Rightarrow> FileHeader list \<Rightarrow> Request" where
  "uploadRequest userCode folder files =
     emptyRequest\<lparr> Method := ''POST'', ContextUserCode := Some userCode,
       FormValue := (\<lambda>key. if key = ''folder'' then folder else []),
       MultipartFile := (\<lambda>key. if key = ''pdfs'' then files else []) \<rparr>"

definition downloadRequest :: "string \<Rightarrow> string \<Rightarrow> Request" where
  "downloadRequest userCode folder =
     emptyRequest\<lparr> ContextUserCode := Some userCode,
       URLQuery := (\<lambda>key. if key = ''folder'' then folder else []) \<rparr>"

definition deleteRequest :: Request where
  "deleteRequest = emptyRequest\<lparr> Method := ''DELETE'', ContextUserCode := Some ''testUser'' \<rparr>"

definition testUserPath :: "Request \<Rightarrow> error + string" where
  "testUserPath r = Inr ''/tmp/testUser''"

definition upload :: "string \<Rightarrow> string \<Rightarrow> FileHeader" where
  "upload filename content = \<lparr>Filename = filename, Open = Inr content\<rparr>"

section \<open>Deleting files\<close>

text \<open>
  The body of a delete request (\<open>DeleteFilesRequest\<close>, which is among the
  sources).
\<close>

record DeleteFilesRequest =
  Folder :: string
  Files :: "string list"

text \<open>
  Modelled from the spec: the deletion of named files. The handler
  \<open>DeleteFilesHandler\<close> and the variable \<open>getUserStoragePathFn\<close> are called
  by the test of the package, but the file that defines them is not among the
  sources. The specification says of a non-empty list: delete exactly the
  named files from the folder, and stop with \<open>NotFoundError\<close> at the first
  name that does not exist, leaving what was deleted before removed.
\<close>

fun deleteNamed :: "Folders \<Rightarrow> string \<Rightarrow> string list \<Rightarrow> error option \<times> Folders" where
  "deleteNamed fs folderPath [] = (None, fs)"
| "deleteNamed fs folderPath (f # files) =
     (case fs folderPath of
        None \<Rightarrow> (Some (NotFoundError f), fs)
      | Some entries \<Rightarrow>
          if f \<in> set (map Name (filter (\<lambda>e. \<not> IsDir e) entries))
          then deleteNamed (fs(folderPath \<mapsto> filter (\<lambda>e. Name e \<noteq> f) entries)) folderPath files
          else (Some (NotFoundError f), fs))"

text \<open>
  Modelled from the spec: the delete orchestration, whose source is missing as
  said above. The specification says: with the empty list, delete all files in
  the folder, which is to be read as deleting everything and not as deleting
  nothing; otherwise delete the named files. What happens when the folder
  itself does not exist is not said; the model reports the failed directory
  read.
\<close>

definition deleteFiles :: "Folders \<Rightarrow> string \<Rightarrow> string list \<Rightarrow> error option \<times> Folders" where
  "deleteFiles fs folderPath files =
     (if files = [] then
        (case readFolder fs folderPath of
           (entries, Some err) \<Rightarrow> (Some err, fs)
         | (entries, None) \<Rightarrow> (None, fs(folderPath \<mapsto> filter IsDir entries)))
      else deleteNamed fs folderPath files)"

text \<open>
  Modelled from the spec: the handler \<open>DeleteFilesHandler\<close>, whose source is
  missing as said above. The specification says that it succeeds with no
  content. The test of the package adds the status codes (405 for a method
  other than DELETE, 400 for a file that does not exist, 200 on success) and
  that the folder is the one named in the request, below the path that
  \<open>getUserStoragePathFn\<close> returns.
\<close>

definition DeleteFilesHandler ::
    "(Request \<Rightarrow> error + string) \<Rightarrow> Request \<Rightarrow> DeleteFilesRequest \<Rightarrow> Folders \<Rightarrow> Response \<times> Folders" where
  "DeleteFilesHandler getUserStoragePathFn r req fs =
     (if Method r \<noteq> ''DELETE'' then (HttpError 405, fs)
      else
        (case getUserStoragePathFn r of
           Inl err \<Rightarrow> (HttpError 500, fs)
         | Inr userStoragePath \<Rightarrow>
             (let folderPath = filepath_Join [userStoragePath, Folder req]
              in case deleteFiles fs folderPath (Files req) of
                   (Some err, fs1) \<Rightarrow> (HttpError 400, fs1)
                 | (None, fs1) \<Rightarrow> (Text 200 [], fs1))))"

section \<open>The upload as the specification words it\<close>

text \<open>
  The name that the specification gives the file at position \<open>pos\<close> of a
  batch, counted from one, over a base offset: the number \<open>base + pos\<close>, the
  separator and the original name when the part of the name before its first
  \<open>-\<close> does not parse as an integer, and the original name otherwise.
\<close>

definition sequencedName :: "nat \<Rightarrow> nat \<Rightarrow> string \<Rightarrow> string" where
  "sequencedName base pos originalName =
     (if strconv_Atoi (takeWhile (\<lambda>c. c \<noteq> CHR ''-'') originalName) = None
      then formatDecimal (base + pos) @ ''-'' @ originalName
      else originalName)"

text \<open>
  Storing files under given names, in order: each is opened, created at its
  name inside the folder and copied, and the first failure ends the run with
  status 500.
\<close>

fun storeUnder ::
    "'w System \<Rightarrow> string \<Rightarrow> (string \<times> FileHeader) list \<Rightarrow> 'w \<Rightarrow> Response \<times> 'w" where
  "storeUnder sys folderPath [] w = (Text 200 ''Archivos subidos correctamente'', w)"
| "storeUnder sys folderPath ((storedName, fileHeader) # rest) w =
     (case Open fileHeader of
        Inl err \<Rightarrow> (HttpError 500, w)
      | Inr file \<Rightarrow>
          (case os_Create sys (filepath_Join [folderPath, storedName]) w of
             (Some err, w1) \<Rightarrow> (HttpError 500, w1)
           | (None, w1) \<Rightarrow>
               (case io_Copy sys (filepath_Join [folderPath, storedName]) file w1 of
                  (Some err, w2) \<Rightarrow> (HttpError 500, w2)
                | (None, w2) \<Rightarrow> storeUnder sys folderPath rest w2)))"

text \<open>
  The positions of a batch, counted from one, each with the name the
  specification gives it and its file.
\<close>

definition sequencedBatch :: "nat \<Rightarrow> FileHeader list \<Rightarrow> (string \<times> FileHeader) list" where
  "sequencedBatch base files =
     map (\<lambda>(pos, fileHeader). (sequencedName base pos (Filename fileHeader), fileHeader))
       (zip [1..<Suc (length files)] files)"

section \<open>The comparison is the lexicographic one\<close>

lemma not_isDigit_space: "\<not> isDigit CHR '' ''"
  by (simp add: isDigit_def)

lemma re_FindAllString_shape:
  "m \<in> set (re_FindAllString s) \<Longrightarrow> \<exists>c. isDigit c \<and> m = [c, CHR '' '']"
  by (induction s rule: re_FindAllString.induct) (auto split: if_splits)

lemma Atoi_digit_space: "strconv_Atoi [c, CHR '' ''] = None"
  by (simp add: strconv_Atoi_def not_isDigit_space)

lemma Atoi_match_fails:
  assumes "re_FindAllString s \<noteq> []"
  shows "strconv_Atoi (re_FindAllString s ! 0) = None"
proof -
  from assms have "re_FindAllString s ! 0 \<in> set (re_FindAllString s)"
    by simp
  then obtain c where "re_FindAllString s ! 0 = [c, CHR '' '']"
    using re_FindAllString_shape by blast
  then show ?thesis
    by (simp add: Atoi_digit_space)
qed

lemma sortLess_lex: "sortLess a b = (a < b)"
proof (cases "re_FindAllString a = [] \<or> re_FindAllString b = []")
  case True
  then show ?thesis by (auto simp: sortLess_def)
next
  case False
  then have "strconv_Atoi (re_FindAllString a ! 0) = None"
    using Atoi_match_fails by blast
  with False show ?thesis
    by (simp add: sortLess_def)
qed

lemma sortLess_is_less: "sortLess = (<)"
  by (intro ext) (rule sortLess_lex)

subsection \<open>The insertion sort sorts\<close>

lemma insertLess_mset: "mset (insertLess lt x ys) = add_mset x (mset ys)"
  by (induction ys) auto

lemma insertLess_set: "set (insertLess lt x ys) = insert x (set ys)"
  by (induction ys) auto

lemma insertLess_sorted:
  fixes x :: "'a::linorder"
  shows "sorted (rev ys) \<Longrightarrow> sorted (rev (insertLess (<) x ys))"
  by (induction ys) (auto simp: sorted_append insertLess_set)

lemma foldl_insertLess_mset:
  "mset (foldl (\<lambda>pre x. insertLess lt x pre) acc xs) = mset acc + mset xs"
  by (induction xs arbitrary: acc) (simp_all add: insertLess_mset)

lemma foldl_insertLess_sorted:
  fixes acc :: "'a::linorder list"
  shows "sorted (rev acc) \<Longrightarrow> sorted (rev (foldl (\<lambda>pre x. insertLess (<) x pre) acc xs))"
  by (induction xs arbitrary: acc) (simp_all add: insertLess_sorted)

lemma sort_Slice_mset: "mset (sort_Slice lt xs) = mset xs"
  by (simp add: sort_Slice_def foldl_insertLess_mset)

text \<open>
  With a linear order as the comparison, the result is the one sorted
  rearrangement of the input: which sorting algorithm \<open>sort.Slice\<close> runs makes
  no difference to the listing.
\<close>

lemma sort_Slice_linorder:
  fixes xs :: "'a::linorder list"
  shows "sort_Slice (<) xs = sort xs"
proof -
  have "sorted (sort_Slice (<) xs)"
    by (simp add: sort_Slice_def foldl_insertLess_sorted)
  then show ?thesis
    using properties_for_sort [of "sort_Slice (<) xs" xs] by (simp add: sort_Slice_mset)
qed

lemma hasSuffix_iff: "strings_HasSuffix s suf \<longleftrightarrow> (\<exists>p. s = p @ suf)"
  unfolding strings_HasSuffix_def
  by (metis append_eq_conv_conj append_take_drop_id diff_add_inverse2 le_add2 length_append length_drop)

lemma ListFilesWithExtension_sorted:
  "ListFilesWithExtension readDir dir ext =
     (case snd (readDir dir) of
        Some err \<Rightarrow> Inl err
      | None \<Rightarrow> Inr (sort (map Name
                 (filter (\<lambda>file. \<not> IsDir file \<and> (\<exists>p. Name file = p @ ext)) (fst (readDir dir))))))"
  by (cases "readDir dir")
     (simp add: ListFilesWithExtension_def sortLess_is_less sort_Slice_linorder hasSuffix_iff
           split: option.splits)

section \<open>The upload loop\<close>

lemma strings_Split_nonempty: "strings_Split s sep \<noteq> []"
  by (induction s) (auto split: list.splits)

lemma strings_Split_first: "strings_Split s sep ! 0 = takeWhile (\<lambda>c. c \<noteq> sep) s"
proof (induction s)
  case Nil
  show ?case by simp
next
  case (Cons c s)
  then show ?case
    using strings_Split_nonempty [of s sep] by (auto split: list.splits)
qed

lemma uploadFilename_sequenced:
  "uploadFilename counter i filename = sequencedName counter (i + 1) filename"
  by (simp add: uploadFilename_def sequencedName_def strings_Split_first add.commute add.left_commute)

lemma uploadFiles_storeUnder:
  "uploadFiles sys folderPath counter i files w =
     storeUnder sys folderPath
       (map (\<lambda>(pos, fileHeader). (sequencedName counter pos (Filename fileHeader), fileHeader))
            (zip [Suc i..<Suc (i + length files)] files)) w"
proof (induction files arbitrary: i w)
  case Nil
  show ?case by simp
next
  case (Cons fh files)
  have upt: "[Suc i..<Suc (i + length (fh # files))] = Suc i # [Suc (Suc i)..<Suc (Suc i + length files)]"
    by (subst upt_rec) simp
  have IH: "uploadFiles sys folderPath counter (Suc i) files w' =
     storeUnder sys folderPath
       (map (\<lambda>(pos, fileHeader). (sequencedName counter pos (Filename fileHeader), fileHeader))
            (zip [Suc (Suc i)..<Suc (Suc i + length files)] files)) w'" for w'
    by (rule Cons.IH)
  show ?case
    unfolding upt
    by (simp add: IH uploadFilename_sequenced del: upt_Suc filepath_Join.simps split: sum.splits prod.splits option.splits)
qed

lemma length_ListFiles:
  "ListFilesWithExtension readDir dir ext = Inr names \<Longrightarrow>
   length names = length (filter (\<lambda>file. \<not> IsDir file \<and> (\<exists>p. Name file = p @ ext)) (fst (readDir dir)))"
  by (auto simp: ListFilesWithExtension_sorted split: option.splits)

section \<open>The Base64 encoding can be undone\<close>

lemma encodeStd_props:
  "list_all (\<lambda>v. decodeChar (encodeStd ! v) = v \<and> encodeStd ! v \<noteq> CHR ''='') [0..<64]"
  by (simp add: encodeStd_def decodeChar_def upt_rec [of _ "numeral n" for n] )

lemma decodeChar_encodeStd:
  assumes "v < 64"
  shows "decodeChar (encodeStd ! v) = v" and "encodeStd ! v \<noteq> CHR ''=''"
  using encodeStd_props assms by (auto simp: list_all_iff)

lemma sextets_recompose:
  fixes val :: nat
  assumes "val < 16777216"
  shows "(val div 262144 mod 64) * 262144 + (val div 4096 mod 64) * 4096
           + (val div 64 mod 64) * 64 + val mod 64 = val"
proof -
  have d1: "val div 4096 = val div 64 div 64"
    using div_mult2_eq [of val 64 64] by simp
  have d2: "val div 262144 = val div 4096 div 64"
    using div_mult2_eq [of val 4096 64] by simp
  have top: "val div 262144 mod 64 = val div 262144"
    using assms by simp
  have s0: "val = val div 64 * 64 + val mod 64"
    by simp
  have s1: "val div 64 = val div 4096 * 64 + val div 64 mod 64"
    unfolding d1 by simp
  have s2: "val div 4096 = val div 262144 * 64 + val div 4096 mod 64"
    unfolding d2 by simp
  have "val = ((val div 262144 * 64 + val div 4096 mod 64) * 64 + val div 64 mod 64) * 64 + val mod 64"
    using s0 s1 s2 by presburger
  then show ?thesis
    unfolding top by (simp add: algebra_simps)
qed

lemma sextets_recompose_top:
  fixes val :: nat
  assumes "val < 16777216"
  shows "val div 262144 * 262144 + val div 4096 mod 64 * 4096
           + val div 64 mod 64 * 64 + val mod 64 = val"
  using sextets_recompose [OF assms] assms by simp

lemma of_char_bound: "(of_char c :: nat) < 256"
proof -
  have "(of_char c :: nat) mod 256 < 256"
    by simp
  then show ?thesis
    by (simp only: of_char_mod_256)
qed

lemma bytes_split:
  fixes A B C :: nat
  assumes "B < 256" "C < 256"
  shows "(A * 65536 + B * 256 + C) div 65536 = A"
    and "(A * 65536 + B * 256 + C) div 256 mod 256 = B"
    and "(A * 65536 + B * 256 + C) mod 256 = C"
proof -
  have e: "A * 65536 + B * 256 + C = (A * 256 + B) * 256 + C"
    by simp
  show "(A * 65536 + B * 256 + C) div 65536 = A"
    using assms by simp
  have "((A * 256 + B) * 256 + C) div 256 = A * 256 + B"
    using assms by simp
  then have "(A * 65536 + B * 256 + C) div 256 = A * 256 + B"
    by (simp only: e)
  then show "(A * 65536 + B * 256 + C) div 256 mod 256 = B"
    using assms by simp
  have "((A * 256 + B) * 256 + C) mod 256 = C"
    using assms by (simp only: mod_mult_self3 mod_less)
  then show "(A * 65536 + B * 256 + C) mod 256 = C"
    by (simp only: e)
qed

lemma decode_quantum:
  fixes val :: nat
  assumes "val < 16777216"
  shows "base64_Decode (encodeStd ! (val div 262144 mod 64) # encodeStd ! (val div 4096 mod 64)
           # encodeStd ! (val div 64 mod 64) # encodeStd ! (val mod 64) # rest)
         = char_of (val div 65536) # char_of (val div 256 mod 256) # char_of (val mod 256)
             # base64_Decode rest"
  using assms by (simp add: Let_def decodeChar_encodeStd sextets_recompose_top)

lemma decode_quantum2:
  fixes val :: nat
  assumes "val < 16777216" and "val mod 64 = 0"
  shows "base64_Decode [encodeStd ! (val div 262144 mod 64), encodeStd ! (val div 4096 mod 64),
           encodeStd ! (val div 64 mod 64), CHR ''='']
         = [char_of (val div 65536), char_of (val div 256 mod 256)]"
proof -
  have "val div 262144 * 262144 + val div 4096 mod 64 * 4096 + val div 64 mod 64 * 64 = val"
    using sextets_recompose_top [OF assms(1)] assms(2) by simp
  then show ?thesis
    using assms(1) by (simp add: Let_def decodeChar_encodeStd)
qed

lemma low_sextets_zero:
  fixes val :: nat
  assumes "val mod 4096 = 0"
  shows "val div 64 mod 64 = 0" and "val mod 64 = 0"
proof -
  from assms have "4096 dvd val"
    by (simp add: dvd_eq_mod_eq_0)
  then obtain k where "val = 4096 * k" ..
  then have val: "val = (k * 64) * 64"
    by simp
  have "val div 64 = k * 64"
    unfolding val by simp
  then show "val div 64 mod 64 = 0"
    by simp
  show "val mod 64 = 0"
    unfolding val by simp
qed

lemma decode_quantum1:
  fixes val :: nat
  assumes "val < 16777216" and "val mod 4096 = 0"
  shows "base64_Decode [encodeStd ! (val div 262144 mod 64), encodeStd ! (val div 4096 mod 64),
           CHR ''='', CHR ''='']
         = [char_of (val div 65536)]"
proof -
  have "val div 262144 * 262144 + val div 4096 mod 64 * 4096 = val"
    using sextets_recompose_top [OF assms(1)] low_sextets_zero [OF assms(2)] by simp
  then show ?thesis
    using assms(1) by (simp add: Let_def decodeChar_encodeStd)
qed

lemma base64_roundtrip: "base64_Decode (base64_EncodeToString src) = src"
proof (induction src rule: base64_EncodeToString.induct)
  case (1 a b c src)
  define val :: nat where "val = of_char a * 65536 + of_char b * 256 + of_char c"
  have small: "val < 16777216"
    unfolding val_def
    using of_char_bound [of a] of_char_bound [of b] of_char_bound [of c] by linarith
  have bytes: "val div 65536 = of_char a" "val div 256 mod 256 = of_char b" "val mod 256 = of_char c"
    unfolding val_def using bytes_split [OF of_char_bound [of b] of_char_bound [of c], of "of_char a"]
    by simp_all
  have "base64_EncodeToString (a # b # c # src)
        = encodeStd ! (val div 262144 mod 64) # encodeStd ! (val div 4096 mod 64)
           # encodeStd ! (val div 64 mod 64) # encodeStd ! (val mod 64) # base64_EncodeToString src"
    by (simp add: Let_def val_def)
  then show ?case
    using "1.IH" by (simp add: decode_quantum [OF small] bytes del: base64_EncodeToString.simps base64_Decode.simps)
next
  case (2 a b)
  define val :: nat where "val = of_char a * 65536 + of_char b * 256"
  have small: "val < 16777216"
    unfolding val_def using of_char_bound [of a] of_char_bound [of b] by linarith
  have "val = (of_char a * 1024 + of_char b * 4) * 64"
    by (simp add: val_def)
  then have low: "val mod 64 = 0"
    by (simp only: mod_mult_self2_is_0)
  have bytes: "val div 65536 = of_char a" "val div 256 mod 256 = of_char b"
    unfolding val_def using bytes_split [OF of_char_bound [of b], of 0 "of_char a"]
    by simp_all
  have "base64_EncodeToString [a, b]
        = [encodeStd ! (val div 262144 mod 64), encodeStd ! (val div 4096 mod 64),
           encodeStd ! (val div 64 mod 64), CHR ''='']"
    by (simp add: Let_def val_def)
  then show ?case
    by (simp add: decode_quantum2 [OF small low] bytes del: base64_EncodeToString.simps base64_Decode.simps)
next
  case (3 a)
  define val :: nat where "val = of_char a * 65536"
  have small: "val < 16777216"
    unfolding val_def using of_char_bound [of a] by linarith
  have "val = (of_char a * 16) * 4096"
    by (simp add: val_def)
  then have low: "val mod 4096 = 0"
    by (simp only: mod_mult_self2_is_0)
  have bytes: "val div 65536 = of_char a"
    unfolding val_def by simp
  have "base64_EncodeToString [a]
        = [encodeStd ! (val div 262144 mod 64), encodeStd ! (val div 4096 mod 64),
           CHR ''='', CHR ''='']"
    by (simp add: Let_def val_def)
  then show ?case
    by (simp add: decode_quantum1 [OF small low] bytes del: base64_EncodeToString.simps base64_Decode.simps)
next
  case 4
  show ?case by simp
qed

lemma base64_empty_iff: "base64_EncodeToString src = [] \<longleftrightarrow> src = []"
  by (induction src rule: base64_EncodeToString.induct) (simp_all add: Let_def)

section \<open>Deleting everything\<close>

lemma deleteFiles_all:
  assumes "fs folderPath = Some entries"
  shows "deleteFiles fs folderPath [] = (None, fs(folderPath \<mapsto> filter IsDir entries))"
  using assms by (simp add: deleteFiles_def readFolder_def)

lemma ListFiles_only_dirs:
  assumes "fs folderPath = Some remaining" and "\<forall>e \<in> set remaining. IsDir e"
  shows "ListFilesWithExtension (readFolder fs) folderPath ext = Inr []"
proof -
  have "filter (\<lambda>file. \<not> IsDir file \<and> (\<exists>p. Name file = p @ ext)) remaining = []"
    using assms(2) by (simp add: filter_empty_conv)
  then show ?thesis
    using assms(1) by (simp add: ListFilesWithExtension_sorted readFolder_def)
qed

section \<open>The call of the merge operation\<close>

lemma joinPDFs_call:
  assumes "ListFilesWithExtension (osReadDir sys w) (filepath_Join [path, folder]) ''.pdf'' = Inr files"
    and "files \<noteq> []"
  shows "joinPDFs sys path folder w =
           api_MergeCreateFile sys
             (map (\<lambda>file. filepath_Join [filepath_Join [path, folder], file]) files)
             (filepath_Join [filepath_Join [path, folder], ''../'', folder @ ''.pdf''])
             False w"
proof -
  have "map (\<lambda>i. filepath_Join [filepath_Join [path, folder], files ! i]) [0..<length files]
        = map (\<lambda>file. filepath_Join [filepath_Join [path, folder], file]) files"
    by (rule nth_equalityI) (simp_all del: filepath_Join.simps)
  then show ?thesis
    using assms by (simp add: joinPDFs_def Let_def del: filepath_Join.simps)
qed

section \<open>The store after a generation\<close>

lemma isValid_update: "isValid (store(code \<mapsto> True)) c \<longleftrightarrow> c = code \<or> isValid store c"
  by (simp add: isValid_def)

section \<open>The handlers on concrete inputs\<close>

lemma formatDecimal_digits: "formatDecimal 3 = ''3''" "formatDecimal 5 = ''5''"
  by (simp_all add: formatDecimal.simps)

lemma sequencedName_examples:
  "sequencedName 2 (Suc 0) ''a.pdf'' = ''3-a.pdf''"
  "sequencedName 2 2 ''7-b.pdf'' = ''7-b.pdf''"
  "sequencedName 2 3 ''c-d.pdf'' = ''5-c-d.pdf''"
  by (simp_all add: sequencedName_def strconv_Atoi_def isDigit_def formatDecimal_digits)

lemma sequencedBatch_example:
  "sequencedBatch 2 [upload ''a.pdf'' ''A'', upload ''7-b.pdf'' ''B'', upload ''c-d.pdf'' ''C'']
     = [(''3-a.pdf'', upload ''a.pdf'' ''A''), (''7-b.pdf'', upload ''7-b.pdf'' ''B''),
        (''5-c-d.pdf'', upload ''c-d.pdf'' ''C'')]"
proof -
  have "[1..<Suc (length [upload ''a.pdf'' ''A'', upload ''7-b.pdf'' ''B'', upload ''c-d.pdf'' ''C''])]
        = [1, 2, 3]"
    by (simp add: upt_rec)
  then show ?thesis
    unfolding sequencedBatch_def
    by (simp add: sequencedName_examples upload_def del: upt_Suc)
qed

lemma join_examples:
  "filepath_Join [''/srv'', ''archivos'', ''alex''] = ''/srv/archivos/alex''"
  "filepath_Join [''/srv/archivos/alex'', ''docs''] = ''/srv/archivos/alex/docs''"
  "filepath_Join [''/srv/archivos/alex/docs'', ''3-a.pdf''] = ''/srv/archivos/alex/docs/3-a.pdf''"
  "filepath_Join [''/srv/archivos/alex/docs'', ''7-b.pdf''] = ''/srv/archivos/alex/docs/7-b.pdf''"
  "filepath_Join [''/srv/archivos/alex/docs'', ''5-c-d.pdf''] = ''/srv/archivos/alex/docs/5-c-d.pdf''"
  by (simp_all add: filepath_Clean_def)


lemma listing_docs:
  "ListFilesWithExtension
      (osReadDir recordingSystem
         (worldWith ''/srv/archivos/alex/docs''
            [mockFile ''1-x.pdf'', mockFile ''2-y.pdf'', mockFile ''notes.txt'']))
      ''/srv/archivos/alex/docs'' ''.pdf'' = Inr [''1-x.pdf'', ''2-y.pdf'']"
  by (simp add: worldWith_def emptyWorld_def recordingSystem_def readFolder_def
        ListFilesWithExtension_def mockFile_def strings_HasSuffix_def sort_Slice_def sortLess_def
        isDigit_def)

lemma storeUnder_example:
  "storeUnder recordingSystem ''/srv/archivos/alex/docs''
     [(''3-a.pdf'', upload ''a.pdf'' ''A''), (''7-b.pdf'', upload ''7-b.pdf'' ''B''),
      (''5-c-d.pdf'', upload ''c-d.pdf'' ''C'')]
     (worldWith ''/srv/archivos/alex/docs''
        [mockFile ''1-x.pdf'', mockFile ''2-y.pdf'', mockFile ''notes.txt''])
   = (Text 200 ''Archivos subidos correctamente'',
      (worldWith ''/srv/archivos/alex/docs''
         [mockFile ''1-x.pdf'', mockFile ''2-y.pdf'', mockFile ''notes.txt''])
      \<lparr> created := [''/srv/archivos/alex/docs/3-a.pdf'', ''/srv/archivos/alex/docs/7-b.pdf'',
                    ''/srv/archivos/alex/docs/5-c-d.pdf''],
        copied := [(''/srv/archivos/alex/docs/3-a.pdf'', ''A''),
                   (''/srv/archivos/alex/docs/7-b.pdf'', ''B''),
                   (''/srv/archivos/alex/docs/5-c-d.pdf'', ''C'')] \<rparr>)"
  by (simp add: join_examples upload_def recordingSystem_def worldWith_def emptyWorld_def
        del: filepath_Join.simps)

lemma join_test_folder:
  "filepath_Join [''/tmp/testUser'', ''test-folder''] = ''/tmp/testUser/test-folder''"
  by (simp add: filepath_Clean_def)

section \<open>The output path of a folder with a plain name\<close>

lemma split_append:
  "strings_Split (a @ sep # b) sep = strings_Split a sep @ strings_Split b sep"
  using strings_Split_nonempty [of _ sep]
  by (induction a) (auto split: list.splits)

lemma split_no_sep: "sep \<notin> set s \<Longrightarrow> strings_Split s sep = [s]"
  by (induction s) auto

lemma split_elems_no_sep: "e \<in> set (strings_Split s sep) \<Longrightarrow> sep \<notin> set e"
  by (induction s arbitrary: e) (auto split: if_splits list.splits)

lemma cleanElems_append:
  "cleanElems r out (xs @ ys) = cleanElems r (rev (cleanElems r out xs)) ys"
  by (induction r out xs rule: cleanElems.induct) (auto split: list.splits)

lemma split_join:
  assumes "es \<noteq> []" and "\<forall>e \<in> set es. sep \<notin> set e"
  shows "strings_Split (strings_Join es sep) sep = es"
  using assms
proof (induction es sep rule: strings_Join.induct)
  case (1 sep)
  then show ?case by simp
next
  case (2 e sep)
  then show ?case by (simp add: split_no_sep)
next
  case (3 e v va sep)
  then show ?case by (simp add: split_append split_no_sep)
qed

lemma cleanStack_Nil: "cleanStack r []"
  by (simp add: cleanStack_def)

lemma cleanStack_push:
  assumes "cleanStack r out" and "e \<noteq> []" and "e \<noteq> ''.''" and "e \<noteq> ''..''" and "CHR ''/'' \<notin> set e"
  shows "cleanStack r (e # out)"
  using assms by (simp add: cleanStack_def)

lemma cleanStack_pop: "cleanStack r (t # ts) \<Longrightarrow> t \<noteq> ''..'' \<Longrightarrow> cleanStack r ts"
  by (simp add: cleanStack_def)

lemma cleanStack_dots:
  assumes "cleanStack r out" and "\<not> r" and "out = [] \<or> hd out = ''..''"
  shows "cleanStack r (''..'' # out)"
  using assms by (cases out) (auto simp: cleanStack_def)

lemma cleanElems_cleanStack:
  assumes "cleanStack r out" and "\<forall>e \<in> set xs. CHR ''/'' \<notin> set e"
  shows "cleanStack r (rev (cleanElems r out xs))"
  using assms
proof (induction r out xs rule: cleanElems.induct)
  case (1 rooted out)
  then show ?case by simp
next
  case (2 rooted out e es)
  show ?case
  proof (cases "e = [] \<or> e = ''.''")
    case True
    then show ?thesis using 2 by simp
  next
    case skip: False
    show ?thesis
    proof (cases "e = ''..''")
      case False
      with skip 2 show ?thesis
        by (simp add: cleanStack_push)
    next
      case dots: True
      show ?thesis
      proof (cases out)
        case Nil
        with dots skip 2 show ?thesis
          by (cases rooted) (simp_all add: cleanStack_dots cleanStack_Nil)
      next
        case (Cons t ts)
        show ?thesis
        proof (cases "t = ''..''")
          case True
          then have "\<not> rooted"
            using "2.prems"(1) Cons by (auto simp: cleanStack_def)
          with True dots skip 2 Cons show ?thesis
            by (simp add: cleanStack_dots)
        next
          case False
          with dots skip 2 Cons show ?thesis
            by (simp add: cleanStack_pop)
        qed
      qed
    qed
  qed
qed


lemma below_dots:
  "list_all (\<lambda>e. e = d) (dropWhile (\<lambda>e. e \<noteq> d) (xs @ d # zs)) \<Longrightarrow> list_all (\<lambda>e. e = d) zs"
  by (induction xs) (auto split: if_splits)

lemma cleanElems_stable:
  assumes "cleanStack r (rev ys @ out)"
  shows "cleanElems r out ys = rev out @ ys"
  using assms
proof (induction ys arbitrary: out)
  case Nil
  then show ?case by simp
next
  case (Cons e ys)
  then have inv: "cleanStack r (rev ys @ e # out)"
    by simp
  then have plain: "e \<noteq> []" "e \<noteq> ''.''"
    by (auto simp: cleanStack_def)
  have "cleanElems r out (e # ys) = cleanElems r (e # out) ys"
  proof (cases "e = ''..''")
    case False
    with plain show ?thesis by simp
  next
    case True
    from inv True have "\<not> r"
      by (auto simp: cleanStack_def)
    from inv True have "list_all (\<lambda>e. e = ''..'') out"
      unfolding cleanStack_def using below_dots [of "''..''" "rev ys" out] by blast
    then have "out = [] \<or> (\<exists>ts. out = ''..'' # ts)"
      by (cases out) auto
    with True \<open>\<not> r\<close> show ?thesis
      by auto
  qed
  also have "\<dots> = rev (e # out) @ ys"
    using Cons.IH [of "e # out"] inv by simp
  finally show ?case
    by simp
qed

lemma cleanElems_idem:
  assumes "\<forall>e \<in> set xs. CHR ''/'' \<notin> set e"
  shows "cleanElems r [] (cleanElems r [] xs) = cleanElems r [] xs"
proof -
  have "cleanStack r (rev (cleanElems r [] xs))"
    using cleanStack_Nil assms by (rule cleanElems_cleanStack)
  then show ?thesis
    using cleanElems_stable [of r "cleanElems r [] xs" "[]"] by simp
qed


lemma strings_Join_snoc:
  "strings_Join (es @ [x]) sep = (if es = [] then x else strings_Join es sep @ sep # x)"
  by (induction es sep rule: strings_Join.induct) simp_all

lemma strings_Join_hd:
  "es \<noteq> [] \<Longrightarrow> hd es \<noteq> [] \<Longrightarrow> hd (strings_Join es sep) = hd (hd es)"
  by (induction es sep rule: strings_Join.induct) simp_all

lemma Clean_nonempty:
  assumes "path \<noteq> []"
  shows "filepath_Clean path =
           (let body = strings_Join (cleanElems (hd path = CHR ''/'') [] (strings_Split path CHR ''/'')) CHR ''/''
            in if hd path = CHR ''/'' then CHR ''/'' # body
               else if body = [] then ''.'' else body)"
  using assms by (cases path) (simp_all add: filepath_Clean_def Let_def del: strings_Split.simps)

lemma Clean_child:
  assumes "path \<noteq> []"
    and "x \<noteq> []" and "x \<noteq> ''.''" and "x \<noteq> ''..''" and "CHR ''/'' \<notin> set x"
  shows "filepath_Clean (path @ CHR ''/'' # x) =
           (if hd path = CHR ''/'' then ''/'' else [])
           @ strings_Join (cleanElems (hd path = CHR ''/'') [] (strings_Split path CHR ''/'') @ [x]) CHR ''/''"
proof -
  let ?r = "hd path = CHR ''/''"
  let ?S = "cleanElems ?r [] (strings_Split path CHR ''/'')"
  have hd: "hd (path @ CHR ''/'' # x) = hd path"
    using assms(1) by simp
  have elems: "cleanElems ?r [] (strings_Split (path @ CHR ''/'' # x) CHR ''/'') = ?S @ [x]"
    using assms(2-5) by (simp add: split_append split_no_sep cleanElems_append del: strings_Split.simps)
  have body: "strings_Join (es @ [x]) CHR ''/'' \<noteq> []" for es
    using assms(2) by (simp add: strings_Join_snoc)
  have "path @ CHR ''/'' # x \<noteq> []"
    by simp
  then show ?thesis
    using body by (simp add: Clean_nonempty hd elems Let_def del: strings_Split.simps)
qed


lemma Clean_sibling:
  assumes "P \<noteq> []"
    and "cleanElems (hd P = CHR ''/'') [] (strings_Split P CHR ''/'') = S @ [d]"
    and "d \<noteq> ''..''"
    and "x \<noteq> []" and "x \<noteq> ''.''" and "x \<noteq> ''..''" and "CHR ''/'' \<notin> set x"
  shows "filepath_Clean (P @ CHR ''/'' # ''../'' @ CHR ''/'' # x) =
           (if hd P = CHR ''/'' then ''/'' else []) @ strings_Join (S @ [x]) CHR ''/''"
proof -
  let ?r = "hd P = CHR ''/''"
  let ?whole = "P @ CHR ''/'' # ''../'' @ CHR ''/'' # x"
  have hd: "hd ?whole = hd P"
    using assms(1) by simp
  have "strings_Split ?whole CHR ''/'' = strings_Split P CHR ''/'' @ [''..'', [], x]"
    using assms(7) split_append [of P "CHR ''/''" "''../'' @ CHR ''/'' # x"]
      split_append [of "''..''" "CHR ''/''" "CHR ''/'' # x"]
    by (simp add: split_no_sep)
  then have elems: "cleanElems ?r [] (strings_Split ?whole CHR ''/'') = S @ [x]"
    using assms(2-7) by (simp add: cleanElems_append del: strings_Split.simps)
  have body: "strings_Join (es @ [x]) CHR ''/'' \<noteq> []" for es
    using assms(4) by (simp add: strings_Join_snoc)
  have ne: "?whole \<noteq> []"
    by simp
  show ?thesis
    unfolding Clean_nonempty [OF ne] hd elems Let_def using body by simp
qed


lemma Clean_plain: 
  assumes "x \<noteq> []" and "x \<noteq> ''.''" and "x \<noteq> ''..''" and "CHR ''/'' \<notin> set x"
  shows "filepath_Clean x = x"
    and "cleanElems (hd x = CHR ''/'') [] (strings_Split x CHR ''/'') = [] @ [x]"
proof -
  have hd: "hd x \<noteq> CHR ''/''"
    using assms(1,4) by (cases x) auto
  show "cleanElems (hd x = CHR ''/'') [] (strings_Split x CHR ''/'') = [] @ [x]"
    using assms by (simp add: split_no_sep)
  then show "filepath_Clean x = x"
    using assms(1) hd by (simp add: Clean_nonempty del: strings_Split.simps)
qed

lemma joined_folder_elems:
  assumes "path \<noteq> []"
    and "x \<noteq> []" and "x \<noteq> ''.''" and "x \<noteq> ''..''" and "CHR ''/'' \<notin> set x"
    and "P = filepath_Clean (path @ CHR ''/'' # x)"
    and "S = cleanElems (hd path = CHR ''/'') [] (strings_Split path CHR ''/'')"
  shows "P \<noteq> []" and "(hd P = CHR ''/'') = (hd path = CHR ''/'')"
    and "cleanElems (hd P = CHR ''/'') [] (strings_Split P CHR ''/'') = S @ [x]"
proof -
  let ?r = "hd path = CHR ''/''"
  have P: "P = (if ?r then ''/'' else []) @ strings_Join (S @ [x]) CHR ''/''"
    unfolding assms(6,7) using assms(1-5) by (rule Clean_child)
  have stack: "cleanStack ?r (rev (S @ [x]))"
  proof -
    have "cleanStack ?r (rev S)"
      unfolding assms(7) using cleanStack_Nil split_elems_no_sep
      by (intro cleanElems_cleanStack) auto
    then show ?thesis
      using assms(2-5) by (simp add: cleanStack_push)
  qed
  then have elems: "\<forall>e \<in> set (S @ [x]). e \<noteq> [] \<and> CHR ''/'' \<notin> set e"
    by (auto simp: cleanStack_def list_all_iff)
  have body: "strings_Join (S @ [x]) CHR ''/'' \<noteq> []"
    using assms(2) by (simp add: strings_Join_snoc)
  show "P \<noteq> []"
    using body by (simp add: P)
  have first: "hd (strings_Join (S @ [x]) CHR ''/'') \<noteq> CHR ''/''"
  proof -
    have "hd (S @ [x]) \<in> set (S @ [x])"
      by (cases S) simp_all
    then have "hd (S @ [x]) \<noteq> []" "CHR ''/'' \<notin> set (hd (S @ [x]))"
      using elems by blast+
    then have "hd (hd (S @ [x])) \<noteq> CHR ''/''"
      by (cases "hd (S @ [x])") auto
    then show ?thesis
      using \<open>hd (S @ [x]) \<noteq> []\<close> by (simp add: strings_Join_hd del: hd_append2)
  qed
  show rooted: "(hd P = CHR ''/'') = ?r"
    using first body by (simp add: P)
  have split: "strings_Split (strings_Join (S @ [x]) CHR ''/'') CHR ''/'' = S @ [x]"
    using elems by (intro split_join) auto
  have "cleanElems ?r [] (strings_Split P CHR ''/'') = cleanElems ?r [] (S @ [x])"
    using split by (simp add: P)
  also have "\<dots> = S @ [x]"
    using cleanElems_stable [of ?r "S @ [x]" "[]"] stack by simp
  finally show "cleanElems (hd P = CHR ''/'') [] (strings_Split P CHR ''/'') = S @ [x]"
    unfolding rooted .
qed

lemma output_path_plain_folder:
  assumes "folder \<noteq> []" and "folder \<noteq> ''.''" and "folder \<noteq> ''..''" and "CHR ''/'' \<notin> set folder"
  shows "filepath_Join [filepath_Join [path, folder], ''../'', folder @ ''.pdf'']
           = filepath_Join [path, folder @ ''.pdf'']"
proof -
  let ?f = "folder @ ''.pdf''"
  have f: "?f \<noteq> []" "?f \<noteq> ''.''" "?f \<noteq> ''..''" "CHR ''/'' \<notin> set ?f"
    using assms(4) by (auto simp: append_eq_Cons_conv)
  show ?thesis
  proof (cases "path = []")
    case True
    have inner: "filepath_Join [path, folder] = folder"
      using True assms by (simp add: Clean_plain(1))
    have "filepath_Clean (folder @ CHR ''/'' # ''../'' @ CHR ''/'' # ?f)
            = (if hd folder = CHR ''/'' then ''/'' else []) @ strings_Join ([] @ [?f]) CHR ''/''"
      using assms(1) Clean_plain(2) [OF assms] assms(3) f by (rule Clean_sibling)
    moreover have "hd folder \<noteq> CHR ''/''"
      using assms(1,4) by (cases folder) auto
    ultimately have sibling: "filepath_Clean (folder @ CHR ''/'' # ''../'' @ CHR ''/'' # ?f) = ?f"
      by simp
    have lhs: "filepath_Join [folder, ''../'', ?f]
                 = filepath_Clean (folder @ CHR ''/'' # ''../'' @ CHR ''/'' # ?f)"
      using assms(1) by simp
    have rhs: "filepath_Join [path, ?f] = ?f"
      using True Clean_plain(1) [OF f] by simp
    show ?thesis
      unfolding inner lhs rhs by (rule sibling)
  next
    case False
    define P where "P = filepath_Clean (path @ CHR ''/'' # folder)"
    define S where "S = cleanElems (hd path = CHR ''/'') [] (strings_Split path CHR ''/'')"
    note facts = joined_folder_elems [OF False assms P_def S_def]
    have inner: "filepath_Join [path, folder] = P"
      using False by (simp add: P_def)
    have "filepath_Clean (P @ CHR ''/'' # ''../'' @ CHR ''/'' # ?f)
            = (if hd P = CHR ''/'' then ''/'' else []) @ strings_Join (S @ [?f]) CHR ''/''"
      using facts(1) facts(3) assms(3) f by (rule Clean_sibling)
    also have "\<dots> = filepath_Clean (path @ CHR ''/'' # ?f)"
      unfolding facts(2) S_def using Clean_child [OF False f] by simp
    finally show ?thesis
      using False facts(1) unfolding inner by simp
  qed
qed

text \<open>
  With a folder name of one plain element, the merge operation is called with
  the input paths in the order of the listing and with the storage root joined
  with the folder name and \<open>.pdf\<close> as the output path.
\<close>

lemma joinPDFs_plain_folder:
  assumes "ListFilesWithExtension (osReadDir sys w) (filepath_Join [path, folder]) ''.pdf'' = Inr files"
    and "files \<noteq> []"
    and "folder \<noteq> []" and "folder \<noteq> ''.''" and "folder \<noteq> ''..''" and "CHR ''/'' \<notin> set folder"
  shows "joinPDFs sys path folder w =
           api_MergeCreateFile sys
             (map (\<lambda>file. filepath_Join [filepath_Join [path, folder], file]) files)
             (filepath_Join [path, folder @ ''.pdf''])
             False w"
  using joinPDFs_call [OF assms(1,2)] output_path_plain_folder [OF assms(3-6), of path]
  by (simp del: filepath_Join.simps)

section \<open>The claims\<close>

subsection \<open>Filename ordering\<close>

text \<open>
  Claim C1: for two filenames that each contain a digit run, the ordering used
  by \<open>ListFilesWithExtension\<close> puts the one whose first digit run is the lower
  integer first; sorting \<open>2-document.pdf\<close>, \<open>12-document.pdf\<close>,
  \<open>1-document.pdf\<close> gives 1, 2, 12.

  The code does not do this. The first digit runs of \<open>2-document.pdf\<close> and
  \<open>12-document.pdf\<close> parse to 2 and 12, yet the comparison puts
  \<open>12-document.pdf\<close> first, and the listing of the three files is 1, 12, 2: the
  pattern asks for a space after the digit, which none of these names has, so
  the names are compared as strings.
\<close>

theorem numeric_order_not_applied:
  "strconv_Atoi (firstDigitRun ''2-document.pdf'') = Some 2
   \<and> strconv_Atoi (firstDigitRun ''12-document.pdf'') = Some 12
   \<and> sortLess ''12-document.pdf'' ''2-document.pdf''
   \<and> \<not> sortLess ''2-document.pdf'' ''12-document.pdf''
   \<and> ListFilesWithExtension
        (mockReadDir [mockFile ''2-document.pdf'', mockFile ''12-document.pdf'',
                      mockFile ''1-document.pdf''])
        ''/test/dir'' ''.pdf''
      = Inr [''1-document.pdf'', ''12-document.pdf'', ''2-document.pdf'']"
  by (simp add: firstDigitRun_def isDigit_def strconv_Atoi_def sortLess_def
        ListFilesWithExtension_def mockReadDir_def mockFile_def sort_Slice_def
        strings_HasSuffix_def)

text \<open>
  Claim C7: when one of two filenames has no digit run, or the integer parsing
  of the extracted run fails for either, the ordering used by
  \<open>ListFilesWithExtension\<close> is the lexicographic comparison of the whole
  filenames; sorting \<open>c-document.pdf\<close>, \<open>a-document.pdf\<close>, \<open>b-document.pdf\<close>
  gives a, b, c. The extracted run is read both ways: as the first digit run of
  the name, and as the first match of the pattern of the code.
\<close>

theorem sortLess_fallback_lexicographic:
  "((\<forall>c \<in> set a. \<not> isDigit c) \<or> (\<forall>c \<in> set b. \<not> isDigit c)
      \<or> strconv_Atoi (firstDigitRun a) = None \<or> strconv_Atoi (firstDigitRun b) = None
      \<or> (re_FindAllString a \<noteq> [] \<and> strconv_Atoi (re_FindAllString a ! 0) = None)
      \<or> (re_FindAllString b \<noteq> [] \<and> strconv_Atoi (re_FindAllString b ! 0) = None)
    \<longrightarrow> sortLess a b = (a < b))
   \<and> ListFilesWithExtension
        (mockReadDir [mockFile ''c-document.pdf'', mockFile ''a-document.pdf'',
                      mockFile ''b-document.pdf''])
        dir ''.pdf''
      = Inr [''a-document.pdf'', ''b-document.pdf'', ''c-document.pdf'']"
proof
  show "(\<forall>c \<in> set a. \<not> isDigit c) \<or> (\<forall>c \<in> set b. \<not> isDigit c)
      \<or> strconv_Atoi (firstDigitRun a) = None \<or> strconv_Atoi (firstDigitRun b) = None
      \<or> (re_FindAllString a \<noteq> [] \<and> strconv_Atoi (re_FindAllString a ! 0) = None)
      \<or> (re_FindAllString b \<noteq> [] \<and> strconv_Atoi (re_FindAllString b ! 0) = None)
    \<longrightarrow> sortLess a b = (a < b)"
    by (simp add: sortLess_lex)
  show "ListFilesWithExtension
        (mockReadDir [mockFile ''c-document.pdf'', mockFile ''a-document.pdf'',
                      mockFile ''b-document.pdf''])
        dir ''.pdf''
      = Inr [''a-document.pdf'', ''b-document.pdf'', ''c-document.pdf'']"
    by (simp add: isDigit_def sortLess_def ListFilesWithExtension_def mockReadDir_def
          mockFile_def sort_Slice_def strings_HasSuffix_def)
qed

theorem sortLess_fallback_lexicographic_witness:
  "filter isDigit ''c-document.pdf'' = []
   \<and> strconv_Atoi (firstDigitRun ''9 lives.pdf'') = Some 9
   \<and> sortLess ''c-document.pdf'' ''9 lives.pdf'' = (''c-document.pdf'' < ''9 lives.pdf'')
   \<and> \<not> sortLess ''c-document.pdf'' ''9 lives.pdf''
   \<and> sortLess ''9 lives.pdf'' ''c-document.pdf''"
  using sortLess_fallback_lexicographic [of "''c-document.pdf''" "''9 lives.pdf''"]
    sortLess_fallback_lexicographic [of "''9 lives.pdf''" "''c-document.pdf''"]
  by (simp add: isDigit_def firstDigitRun_def strconv_Atoi_def)

text \<open>
  Claim C9: the comparison handed to \<open>sort.Slice\<close> in \<open>ListFilesWithExtension\<close>
  gives, for every two filenames, the result of the plain comparison of the
  strings. Every match of its pattern is a digit followed by a space, the
  integer parsing of such a token fails whatever its first byte is, and so the
  branch that compares numbers is never reached.
\<close>

theorem sortLess_equals_string_less:
  "(\<forall>m \<in> set (re_FindAllString a). \<exists>c. isDigit c \<and> m = [c, CHR '' ''])
   \<and> (\<forall>c. strconv_Atoi [c, CHR '' ''] = None)
   \<and> sortLess a b = (a < b)"
  using re_FindAllString_shape Atoi_digit_space sortLess_lex by blast

theorem sortLess_equals_string_less_witness:
  "re_FindAllString ''7 up 12 .pdf'' = [''7 '', ''2 '']
   \<and> strconv_Atoi ''7 '' = None \<and> strconv_Atoi ''2 '' = None
   \<and> sortLess ''7 up 12 .pdf'' ''12 a.pdf'' = (''7 up 12 .pdf'' < ''12 a.pdf'')
   \<and> \<not> sortLess ''7 up 12 .pdf'' ''12 a.pdf''"
  using sortLess_equals_string_less [of "''7 up 12 .pdf''" "''12 a.pdf''"]
  by (simp add: isDigit_def)

subsection \<open>Folder listing\<close>

text \<open>
  Claim C6: \<open>ListFilesWithExtension\<close> returns an error exactly when the
  directory read fails, and then it is the error of the read. Otherwise it
  returns the names of the entries that are not directories and whose name
  ends with the extension, compared byte by byte, in sorted order; when no
  entry matches, that is the empty sequence and not an error.
\<close>

theorem ListFilesWithExtension_contract:
  "((\<exists>e. ListFilesWithExtension readDir dir ext = Inl e) \<longleftrightarrow> snd (readDir dir) \<noteq> None)
   \<and> (\<forall>e. snd (readDir dir) = Some e \<longrightarrow> ListFilesWithExtension readDir dir ext = Inl e)
   \<and> (snd (readDir dir) = None \<longrightarrow>
        ListFilesWithExtension readDir dir ext =
          Inr (sort (map Name
                 (filter (\<lambda>file. \<not> IsDir file \<and> (\<exists>p. Name file = p @ ext))
                    (fst (readDir dir))))))
   \<and> (snd (readDir dir) = None
        \<and> (\<forall>file \<in> set (fst (readDir dir)). IsDir file \<or> \<not> (\<exists>p. Name file = p @ ext)) \<longrightarrow>
        ListFilesWithExtension readDir dir ext = Inr [])"
proof -
  have none: "filter (\<lambda>file. \<not> IsDir file \<and> (\<exists>p. Name file = p @ ext)) (fst (readDir dir)) = []"
    if "\<forall>file \<in> set (fst (readDir dir)). IsDir file \<or> \<not> (\<exists>p. Name file = p @ ext)"
    using that by (auto simp: filter_empty_conv)
  show ?thesis
    by (auto simp: ListFilesWithExtension_sorted none split: option.splits)
qed

theorem ListFilesWithExtension_contract_witness:
  "snd (mockReadDir [mockFile ''1-document.pdf'', mockFile ''document.txt'', mockDir ''folder'']
          ''/test/dir'') = None
   \<and> ListFilesWithExtension
        (mockReadDir [mockFile ''1-document.pdf'', mockFile ''document.txt'', mockDir ''folder''])
        ''/test/dir'' ''.pdf'' = Inr [''1-document.pdf'']
   \<and> ListFilesWithExtension
        (mockReadDir [mockFile ''document.txt'', mockFile ''SCAN.PDF'', mockDir ''old.pdf''])
        ''/test/dir'' ''.pdf'' = Inr []
   \<and> ListFilesWithExtension (failingReadDir ''permission denied'') ''/test/dir'' ''.pdf''
        = Inl (ExternalError ''permission denied'')"
  using ListFilesWithExtension_contract
          [of "mockReadDir [mockFile ''1-document.pdf'', mockFile ''document.txt'', mockDir ''folder'']"
              "''/test/dir''" "''.pdf''"]
        ListFilesWithExtension_contract
          [of "mockReadDir [mockFile ''document.txt'', mockFile ''SCAN.PDF'', mockDir ''old.pdf'']"
              "''/test/dir''" "''.pdf''"]
        ListFilesWithExtension_contract
          [of "failingReadDir ''permission denied''" "''/test/dir''" "''.pdf''"]
  by (simp add: ListFilesWithExtension_def mockReadDir_def failingReadDir_def mockFile_def
        mockDir_def strings_HasSuffix_def sort_Slice_def)

subsection \<open>Upload\<close>

text \<open>
  Claim C3: in an upload batch, with the base offset being the number of
  \<open>.pdf\<close> entries listed in the target folder, the file at position \<open>pos\<close>
  (counted from one, in input order) is stored under the base offset plus
  \<open>pos\<close>, a \<open>-\<close> and its original name when the part of the name before
  the first \<open>-\<close> does not parse as an integer, and under its original name
  when it does.

  For a request that reaches the loop (a POST with a user code and a folder,
  whose folder could be created and listed and whose form could be parsed),
  the handler does exactly what storing the batch under these names does, on
  every system: the same response and the same world, whether the run ends
  with the last file or at the first failure.
\<close>

theorem UploadHandler_sequences_names:
  assumes "Method r = ''POST''"
    and "getUserStoragePath sys r w = Inr userStoragePath"
    and "FormValue r ''folder'' \<noteq> []"
    and "folderPath = filepath_Join [userStoragePath, FormValue r ''folder'']"
    and "os_MkdirAll sys folderPath w = (None, w1)"
    and "ListFilesWithExtension (osReadDir sys w1) folderPath ''.pdf'' = Inr destFiles"
    and "ParseMultipartForm r = None"
  shows "UploadHandler sys r w =
           storeUnder sys folderPath (sequencedBatch (length destFiles) (MultipartFile r ''pdfs'')) w1
         \<and> length destFiles =
             length (filter (\<lambda>file. \<not> IsDir file \<and> (\<exists>p. Name file = p @ ''.pdf''))
                       (fst (osReadDir sys w1 folderPath)))"
proof
  show "UploadHandler sys r w =
           storeUnder sys folderPath (sequencedBatch (length destFiles) (MultipartFile r ''pdfs'')) w1"
    using assms
    by (simp add: UploadHandler_def sequencedBatch_def uploadFiles_storeUnder
          del: filepath_Join.simps upt_Suc)
  show "length destFiles =
             length (filter (\<lambda>file. \<not> IsDir file \<and> (\<exists>p. Name file = p @ ''.pdf''))
                       (fst (osReadDir sys w1 folderPath)))"
    using assms(6) by (rule length_ListFiles)
qed

theorem UploadHandler_sequences_names_witness:
  "ListFilesWithExtension
      (osReadDir recordingSystem
         (worldWith ''/srv/archivos/alex/docs''
            [mockFile ''1-x.pdf'', mockFile ''2-y.pdf'', mockFile ''notes.txt'']))
      ''/srv/archivos/alex/docs'' ''.pdf'' = Inr [''1-x.pdf'', ''2-y.pdf'']
   \<and> sequencedBatch 2 [upload ''a.pdf'' ''A'', upload ''7-b.pdf'' ''B'', upload ''c-d.pdf'' ''C'']
       = [(''3-a.pdf'', upload ''a.pdf'' ''A''), (''7-b.pdf'', upload ''7-b.pdf'' ''B''),
          (''5-c-d.pdf'', upload ''c-d.pdf'' ''C'')]
   \<and> UploadHandler recordingSystem
        (uploadRequest ''alex'' ''docs''
           [upload ''a.pdf'' ''A'', upload ''7-b.pdf'' ''B'', upload ''c-d.pdf'' ''C''])
        (worldWith ''/srv/archivos/alex/docs''
           [mockFile ''1-x.pdf'', mockFile ''2-y.pdf'', mockFile ''notes.txt''])
       = (Text 200 ''Archivos subidos correctamente'',
          (worldWith ''/srv/archivos/alex/docs''
             [mockFile ''1-x.pdf'', mockFile ''2-y.pdf'', mockFile ''notes.txt''])
          \<lparr> created := [''/srv/archivos/alex/docs/3-a.pdf'', ''/srv/archivos/alex/docs/7-b.pdf'',
                        ''/srv/archivos/alex/docs/5-c-d.pdf''],
            copied := [(''/srv/archivos/alex/docs/3-a.pdf'', ''A''),
                       (''/srv/archivos/alex/docs/7-b.pdf'', ''B''),
                       (''/srv/archivos/alex/docs/5-c-d.pdf'', ''C'')] \<rparr>)"
proof -
  let ?r = "uploadRequest ''alex'' ''docs''
              [upload ''a.pdf'' ''A'', upload ''7-b.pdf'' ''B'', upload ''c-d.pdf'' ''C'']"
  let ?w = "worldWith ''/srv/archivos/alex/docs''
              [mockFile ''1-x.pdf'', mockFile ''2-y.pdf'', mockFile ''notes.txt'']"
  have post: "Method ?r = ''POST''"
    by (simp add: uploadRequest_def)
  have root: "getUserStoragePath recordingSystem ?r ?w = Inr ''/srv/archivos/alex''"
    by (simp add: getUserStoragePath_def uploadRequest_def recordingSystem_def join_examples
          del: filepath_Join.simps)
  have folder: "FormValue ?r ''folder'' \<noteq> []"
    by (simp add: uploadRequest_def)
  have path: "''/srv/archivos/alex/docs'' = filepath_Join [''/srv/archivos/alex'', FormValue ?r ''folder'']"
    by (simp add: uploadRequest_def join_examples del: filepath_Join.simps)
  have mkdir: "os_MkdirAll recordingSystem ''/srv/archivos/alex/docs'' ?w = (None, ?w)"
    by (simp add: recordingSystem_def worldWith_def)
  have parse: "ParseMultipartForm ?r = None"
    by (simp add: uploadRequest_def emptyRequest_def)
  have files: "MultipartFile ?r ''pdfs''
                 = [upload ''a.pdf'' ''A'', upload ''7-b.pdf'' ''B'', upload ''c-d.pdf'' ''C'']"
    by (simp add: uploadRequest_def)
  have "UploadHandler recordingSystem ?r ?w =
          storeUnder recordingSystem ''/srv/archivos/alex/docs''
            (sequencedBatch (length [''1-x.pdf'', ''2-y.pdf'']) (MultipartFile ?r ''pdfs'')) ?w"
    using UploadHandler_sequences_names [OF post root folder path mkdir listing_docs parse]
    by (rule conjunct1)
  then have "UploadHandler recordingSystem ?r ?w =
          storeUnder recordingSystem ''/srv/archivos/alex/docs''
            [(''3-a.pdf'', upload ''a.pdf'' ''A''), (''7-b.pdf'', upload ''7-b.pdf'' ''B''),
             (''5-c-d.pdf'', upload ''c-d.pdf'' ''C'')] ?w"
    by (simp only: files sequencedBatch_example list.size One_nat_def [symmetric] Suc_1 add_0 nat_1_add_1 add_Suc)
  with listing_docs sequencedBatch_example storeUnder_example show ?thesis
    by (simp only: simp_thms)
qed

subsection \<open>Delete\<close>

text \<open>
  Claim C4: a delete request with an empty file list deletes every file of the
  folder, it is not a no-op, and the listing of the folder afterwards is the
  empty sequence.

  The handler is the one modelled from the specification. For every folder
  that exists, the request succeeds, nothing but directories is left in the
  folder, and the listing of the folder for any extension is empty.
\<close>

theorem delete_empty_list_deletes_all:
  assumes "Method r = ''DELETE''"
    and "getUserStoragePathFn r = Inr userStoragePath"
    and "folderPath = filepath_Join [userStoragePath, Folder req]"
    and "fs folderPath = Some entries"
    and "Files req = []"
  shows "\<exists>fs1 remaining.
           DeleteFilesHandler getUserStoragePathFn r req fs = (Text 200 [], fs1)
           \<and> fs1 folderPath = Some remaining
           \<and> (\<forall>e \<in> set remaining. IsDir e)
           \<and> ListFilesWithExtension (readFolder fs1) folderPath ext = Inr []"
proof -
  let ?fs1 = "fs(folderPath \<mapsto> filter IsDir entries)"
  have run: "DeleteFilesHandler getUserStoragePathFn r req fs = (Text 200 [], ?fs1)"
    using assms deleteFiles_all [of fs folderPath entries]
    by (simp add: DeleteFilesHandler_def del: filepath_Join.simps)
  have rest: "?fs1 folderPath = Some (filter IsDir entries)"
    by simp
  have dirs: "\<forall>e \<in> set (filter IsDir entries). IsDir e"
    by simp
  have "ListFilesWithExtension (readFolder ?fs1) folderPath ext = Inr []"
    using rest dirs by (rule ListFiles_only_dirs)
  with run rest dirs show ?thesis
    by blast
qed

theorem delete_empty_list_deletes_all_witness:
  "ListFilesWithExtension
      (readFolder [''/tmp/testUser/test-folder'' \<mapsto>
                     [mockFile ''1-document.pdf'', mockFile ''2-document.pdf'']])
      ''/tmp/testUser/test-folder'' ''.pdf'' = Inr [''1-document.pdf'', ''2-document.pdf'']
   \<and> DeleteFilesHandler testUserPath deleteRequest \<lparr>Folder = ''test-folder'', Files = []\<rparr>
        [''/tmp/testUser/test-folder'' \<mapsto> [mockFile ''1-document.pdf'', mockFile ''2-document.pdf'']]
      = (Text 200 [], [''/tmp/testUser/test-folder'' \<mapsto> []])
   \<and> ListFilesWithExtension (readFolder [''/tmp/testUser/test-folder'' \<mapsto> []])
        ''/tmp/testUser/test-folder'' ''.pdf'' = Inr []"
  using delete_empty_list_deletes_all
          [of deleteRequest testUserPath "''/tmp/testUser''" "''/tmp/testUser/test-folder''"
              "\<lparr>Folder = ''test-folder'', Files = []\<rparr>"
              "[''/tmp/testUser/test-folder'' \<mapsto>
                  [mockFile ''1-document.pdf'', mockFile ''2-document.pdf'']]"
              "[mockFile ''1-document.pdf'', mockFile ''2-document.pdf'']" "''.pdf''"]
  by (simp add: DeleteFilesHandler_def deleteRequest_def emptyRequest_def testUserPath_def
        deleteFiles_def readFolder_def mockFile_def join_test_folder ListFilesWithExtension_def
        strings_HasSuffix_def sort_Slice_def sortLess_def isDigit_def
        del: filepath_Join.simps)

subsection \<open>Merge\<close>

text \<open>
  Claim C2: for a folder that is not empty, \<open>joinPDFs\<close> hands the merge
  operation the input paths in the order of the listing, each the folder path
  joined with the listed name, and the output path is the storage root joined
  with the folder name and \<open>.pdf\<close>, beside the folder.

  The input paths are as claimed, and so is the output path when the folder
  name is one plain element (\<open>joinPDFs_plain_folder\<close>). It is not when the
  folder name has more than one element: for the folder \<open>a/b\<close> of the user
  \<open>alex\<close>, the merge operation is told to write
  \<open>/srv/archivos/alex/a/a/b.pdf\<close>, while the storage root joined with the
  folder name and \<open>.pdf\<close> is \<open>/srv/archivos/alex/a/b.pdf\<close>, which is also
  the file that \<open>DownloadHandler\<close> serves for that folder.
\<close>

theorem joinPDFs_output_path_nested_folder:
  "joinPDFs recordingSystem ''/srv/archivos/alex'' ''a/b''
     (worldWith ''/srv/archivos/alex/a/b'' [mockFile ''2-y.pdf'', mockFile ''1-x.pdf''])
   = (None,
      (worldWith ''/srv/archivos/alex/a/b'' [mockFile ''2-y.pdf'', mockFile ''1-x.pdf''])
      \<lparr> merged := [([''/srv/archivos/alex/a/b/1-x.pdf'', ''/srv/archivos/alex/a/b/2-y.pdf''],
                    ''/srv/archivos/alex/a/a/b.pdf'', False)] \<rparr>)
   \<and> filepath_Join [''/srv/archivos/alex'', ''a/b'' @ ''.pdf''] = ''/srv/archivos/alex/a/b.pdf''
   \<and> DownloadHandler recordingSystem (downloadRequest ''alex'' ''a/b'') emptyWorld
       = ServeFile ''/srv/archivos/alex/a/b.pdf''
   \<and> filepath_Join [filepath_Join [''/srv/archivos/alex'', ''docs''], ''../'', ''docs'' @ ''.pdf'']
       = filepath_Join [''/srv/archivos/alex'', ''docs'' @ ''.pdf'']"
  by (simp add: joinPDFs_def DownloadHandler_def downloadRequest_def getUserStoragePath_def
        worldWith_def emptyWorld_def emptyRequest_def recordingSystem_def Let_def
        filepath_Clean_def readFolder_def ListFilesWithExtension_def mockFile_def
        strings_HasSuffix_def sort_Slice_def sortLess_def isDigit_def)

text \<open>
  Claim C5: for a folder whose listing is empty, \<open>joinPDFs\<close> fails with the
  error that no PDF was found and does not call the merge operation, so that
  no output file is written.

  Whatever the merge operation of the system is, the result is that error and
  the world is the one before the call.
\<close>

theorem joinPDFs_empty_folder_no_merge:
  assumes "ListFilesWithExtension (osReadDir sys w) (filepath_Join [path, folder]) ''.pdf'' = Inr []"
  shows "joinPDFs sys path folder w = (Some NoPDFFiles, w)
         \<and> (\<forall>merge. joinPDFs (sys\<lparr>api_MergeCreateFile := merge\<rparr>) path folder w
                        = (Some NoPDFFiles, w))"
  using assms by (simp add: joinPDFs_def del: filepath_Join.simps)

theorem joinPDFs_empty_folder_no_merge_witness:
  "ListFilesWithExtension
      (osReadDir recordingSystem (worldWith ''/srv/archivos/alex/docs'' [mockFile ''notes.txt'']))
      (filepath_Join [''/srv/archivos/alex'', ''docs'']) ''.pdf'' = Inr []
   \<and> joinPDFs recordingSystem ''/srv/archivos/alex'' ''docs''
        (worldWith ''/srv/archivos/alex/docs'' [mockFile ''notes.txt''])
      = (Some NoPDFFiles, worldWith ''/srv/archivos/alex/docs'' [mockFile ''notes.txt''])
   \<and> merged (worldWith ''/srv/archivos/alex/docs'' [mockFile ''notes.txt'']) = []"
  using joinPDFs_empty_folder_no_merge
          [of recordingSystem "worldWith ''/srv/archivos/alex/docs'' [mockFile ''notes.txt'']"
              "''/srv/archivos/alex''" "''docs''"]
  by (simp add: worldWith_def emptyWorld_def recordingSystem_def filepath_Clean_def readFolder_def
        ListFilesWithExtension_def mockFile_def strings_HasSuffix_def sort_Slice_def)

subsection \<open>Access codes\<close>

text \<open>
  Claim C8: for every name and date, the generated access code is the Base64
  encoding of the name followed by the date, an encoding that can be undone,
  and it is registered as valid, so that validating the generated code
  afterwards gives true; validating a string that was never generated and was
  not there from the start, such as \<open>garbage\<close>, gives false.

  The handler refuses an empty name and an empty date: it answers 400 and
  registers nothing.
\<close>

theorem generate_refuses_empty_name:
  "GenerateCodeHandler (generateCodeRequest [] ''2024-01-01'') validCodes
     = (HttpError 400, validCodes)
   \<and> \<not> isValid (snd (GenerateCodeHandler (generateCodeRequest [] ''2024-01-01'') validCodes))
          (base64_EncodeToString ([] @ ''2024-01-01''))"
  by (simp add: GenerateCodeHandler_def generateCodeRequest_def emptyRequest_def encodeStd_def
        isValid_def validCodes_def)

text \<open>
  Claim C8 as amended: take a POST request whose form can be parsed, with any
  name and date. When the name and the date are both not empty, the answer is
  the Base64 encoding of the name followed by the date (and a newline);
  decoding it gives the name followed by the date back; the code is valid in
  the store afterwards and the login accepts it; a string is valid afterwards
  exactly when it is this code or was valid before. When the name is empty or
  the date is empty, the answer is 400 and the store is the one before the
  request: nothing is registered, and a string is valid afterwards exactly
  when it was valid before. A string that is not in a store is not valid, and
  \<open>garbage\<close> is not valid in the initial store.
\<close>

theorem generated_code_is_valid:
  assumes "Method r = ''POST''" and "ParseForm r = None"
    and "FormValue r ''name'' = name" and "FormValue r ''date'' = date"
    and "code = base64_EncodeToString (name @ date)"
  shows "(name \<noteq> [] \<and> date \<noteq> [] \<longrightarrow>
            GenerateCodeHandler r store = (Text 200 (code @ [CHR 0x0A]), store(code \<mapsto> True))
            \<and> base64_Decode code = name @ date
            \<and> isValid (snd (GenerateCodeHandler r store)) code
            \<and> LoginHandler (loginRequest code) (snd (GenerateCodeHandler r store))
                = Redirect 303 ''/view/pdf'' (''auth_code'', code)
            \<and> (\<forall>c. isValid (snd (GenerateCodeHandler r store)) c \<longleftrightarrow> c = code \<or> isValid store c))
         \<and> (name = [] \<or> date = [] \<longrightarrow>
            GenerateCodeHandler r store = (HttpError 400, store)
            \<and> (\<forall>c. isValid (snd (GenerateCodeHandler r store)) c \<longleftrightarrow> isValid store c))
         \<and> (\<forall>c. store c = None \<longrightarrow> \<not> isValid store c)
         \<and> \<not> isValid validCodes ''garbage''"
proof (intro conjI impI)
  assume full: "name \<noteq> [] \<and> date \<noteq> []"
  show run: "GenerateCodeHandler r store = (Text 200 (code @ [CHR 0x0A]), store(code \<mapsto> True))"
    using assms full by (simp add: GenerateCodeHandler_def Let_def)
  show "base64_Decode code = name @ date"
    unfolding assms(5) by (rule base64_roundtrip)
  show "isValid (snd (GenerateCodeHandler r store)) code"
    unfolding run by (simp add: isValid_update)
  have "code \<noteq> []"
    using assms(5) full by (simp add: base64_empty_iff)
  then show "LoginHandler (loginRequest code) (snd (GenerateCodeHandler r store))
                = Redirect 303 ''/view/pdf'' (''auth_code'', code)"
    unfolding run
    by (simp add: LoginHandler_def loginRequest_def emptyRequest_def isValid_def)
  show "\<forall>c. isValid (snd (GenerateCodeHandler r store)) c \<longleftrightarrow> c = code \<or> isValid store c"
    unfolding run by (simp add: isValid_update)
next
  assume missing: "name = [] \<or> date = []"
  show refuse: "GenerateCodeHandler r store = (HttpError 400, store)"
    using assms(1-4) missing by (auto simp: GenerateCodeHandler_def Let_def)
  show "\<forall>c. isValid (snd (GenerateCodeHandler r store)) c \<longleftrightarrow> isValid store c"
    unfolding refuse by simp
next
  show "\<forall>c. store c = None \<longrightarrow> \<not> isValid store c"
    by (simp add: isValid_def)
  show "\<not> isValid validCodes ''garbage''"
    by (simp add: isValid_def validCodes_def)
qed

theorem generated_code_is_valid_witness:
  "GenerateCodeHandler (generateCodeRequest ''alex'' ''2024-01-01'') validCodes
     = (Text 200 (''YWxleDIwMjQtMDEtMDE='' @ [CHR 0x0A]),
        validCodes(''YWxleDIwMjQtMDEtMDE='' \<mapsto> True))
   \<and> isValid (snd (GenerateCodeHandler (generateCodeRequest ''alex'' ''2024-01-01'') validCodes))
        ''YWxleDIwMjQtMDEtMDE=''
   \<and> LoginHandler (loginRequest ''YWxleDIwMjQtMDEtMDE='')
        (snd (GenerateCodeHandler (generateCodeRequest ''alex'' ''2024-01-01'') validCodes))
       = Redirect 303 ''/view/pdf'' (''auth_code'', ''YWxleDIwMjQtMDEtMDE='')
   \<and> \<not> isValid (snd (GenerateCodeHandler (generateCodeRequest ''alex'' ''2024-01-01'') validCodes))
        ''garbage''
   \<and> GenerateCodeHandler (generateCodeRequest [] ''2024-01-01'') validCodes
       = (HttpError 400, validCodes)
   \<and> GenerateCodeHandler (generateCodeRequest ''alex'' []) validCodes
       = (HttpError 400, validCodes)
   \<and> GenerateCodeHandler (generateCodeRequest [] []) validCodes
       = (HttpError 400, validCodes)"
proof -
  have req: "Method (generateCodeRequest n d) = ''POST''" "ParseForm (generateCodeRequest n d) = None"
    "FormValue (generateCodeRequest n d) ''name'' = n"
    "FormValue (generateCodeRequest n d) ''date'' = d" for n d
    by (simp_all add: generateCodeRequest_def emptyRequest_def)
  have code: "''YWxleDIwMjQtMDEtMDE='' = base64_EncodeToString (''alex'' @ ''2024-01-01'')"
    by (simp add: encodeStd_def)
  have garbage: "''garbage'' \<noteq> ''YWxleDIwMjQtMDEtMDE=''"
    by simp
  note full = generated_code_is_valid
    [OF req(1) req(2) req(3) req(4) code, of validCodes]
  note noName = generated_code_is_valid
    [OF req(1) req(2) req(3) req(4) refl, of "[]" "''2024-01-01''" validCodes]
  note noDate = generated_code_is_valid
    [OF req(1) req(2) req(3) req(4) refl, of "''alex''" "[]" validCodes]
  note neither = generated_code_is_valid
    [OF req(1) req(2) req(3) req(4) refl, of "[]" "[]" validCodes]
  have both: "''alex'' \<noteq> [] \<and> ''2024-01-01'' \<noteq> []"
    by simp
  note body = full [THEN conjunct1, THEN mp, OF both]
  have gen:
    "GenerateCodeHandler (generateCodeRequest ''alex'' ''2024-01-01'') validCodes
       = (Text 200 (''YWxleDIwMjQtMDEtMDE='' @ [CHR 0x0A]),
          validCodes(''YWxleDIwMjQtMDEtMDE='' \<mapsto> True))"
    "isValid (snd (GenerateCodeHandler (generateCodeRequest ''alex'' ''2024-01-01'') validCodes))
        ''YWxleDIwMjQtMDEtMDE=''"
    "LoginHandler (loginRequest ''YWxleDIwMjQtMDEtMDE='')
        (snd (GenerateCodeHandler (generateCodeRequest ''alex'' ''2024-01-01'') validCodes))
       = Redirect 303 ''/view/pdf'' (''auth_code'', ''YWxleDIwMjQtMDEtMDE='')"
    "\<forall>c. isValid (snd (GenerateCodeHandler (generateCodeRequest ''alex'' ''2024-01-01'') validCodes)) c
          \<longleftrightarrow> c = ''YWxleDIwMjQtMDEtMDE='' \<or> isValid validCodes c"
    using body by blast+
  have initial: "\<not> isValid validCodes ''garbage''"
    by (rule full [THEN conjunct2, THEN conjunct2, THEN conjunct2])
  have "isValid (snd (GenerateCodeHandler (generateCodeRequest ''alex'' ''2024-01-01'') validCodes))
          ''garbage''
        \<longleftrightarrow> ''garbage'' = ''YWxleDIwMjQtMDEtMDE='' \<or> isValid validCodes ''garbage''"
    using gen(4) by (rule spec)
  then have notGarbage:
    "\<not> isValid (snd (GenerateCodeHandler (generateCodeRequest ''alex'' ''2024-01-01'') validCodes))
        ''garbage''"
    by (simp only: garbage initial simp_thms)
  have r1: "GenerateCodeHandler (generateCodeRequest [] ''2024-01-01'') validCodes
       = (HttpError 400, validCodes)"
    by (rule noName [THEN conjunct2, THEN conjunct1, THEN mp, OF disjI1 [OF refl], THEN conjunct1])
  have r2: "GenerateCodeHandler (generateCodeRequest ''alex'' []) validCodes
       = (HttpError 400, validCodes)"
    by (rule noDate [THEN conjunct2, THEN conjunct1, THEN mp, OF disjI2 [OF refl], THEN conjunct1])
  have r3: "GenerateCodeHandler (generateCodeRequest [] []) validCodes
       = (HttpError 400, validCodes)"
    by (rule neither [THEN conjunct2, THEN conjunct1, THEN mp, OF disjI1 [OF refl], THEN conjunct1])
  from gen(1-3) notGarbage r1 r2 r3 show ?thesis
    by (intro conjI)
qed

text \<open>
  Claim C10: at the start of the process, before any code was generated, the
  string \<open>alex\<close> is valid: the store is initialised with it, the login
  accepts it and sets the cookie, and the authentication middleware lets a request
  with that cookie through to the next handler, with the code in its context.
\<close>

theorem initial_code_alex_accepted:
  "isValid validCodes ''alex''
   \<and> LoginHandler (loginRequest ''alex'') validCodes
       = Redirect 303 ''/view/pdf'' (''auth_code'', ''alex'')
   \<and> AuthMiddleware next validCodes (cookieRequest ''alex'')
       = Inr (next ((cookieRequest ''alex'')\<lparr>ContextUserCode := Some ''alex''\<rparr>))"
  by (simp add: isValid_def validCodes_def LoginHandler_def loginRequest_def emptyRequest_def
        AuthMiddleware_def cookieRequest_def)


end
